theory Spec2Isabelle
  imports Complex_Main "HOL-Library.Multiset"
begin

section \<open>Tensors, errors and the layers of the two networks\<close>

text \<open>
  The notebook \<^verbatim>\<open>GAN_PyTorch_HandsOn_Final.ipynb\<close> builds both networks from
  \<^verbatim>\<open>torch.nn\<close> layers. A two-dimensional tensor of shape \<open>[batch, features]\<close> is a list
  of rows. Numbers are real numbers: the arithmetic of the layers is exact, and a value
  that a 32-bit float cannot hold (an overflow, a not-a-number) does not occur. The
  one rounding that is modelled is that of the final sigmoid of the generator, on which
  the range of the generator's output depends.
  Every module is in training mode, since the notebook never calls \<^verbatim>\<open>eval()\<close>.
\<close>

type_synonym vec = "real list"
type_synonym mat = "real list list"

datatype error =
  RuntimeError  \<comment> \<open>a shape mismatch reported by the tensor library\<close>
| ValueError    \<comment> \<open>batch normalisation of one value per channel; target size mismatch\<close>

definition and_then :: "error + 'a \<Rightarrow> ('a \<Rightarrow> error + 'b) \<Rightarrow> error + 'b" where
  "and_then r f = (case r of Inl e \<Rightarrow> Inl e | Inr a \<Rightarrow> f a)"

subsection \<open>\<^verbatim>\<open>nn.Linear(in_features, out_features)\<close>\<close>

record linear =
  in_features :: nat
  out_features :: nat
  weight :: mat   \<comment> \<open>shape \<open>[out_features, in_features]\<close>\<close>
  bias :: vec     \<comment> \<open>shape \<open>[out_features]\<close>\<close>

definition Linear_shape :: "nat \<Rightarrow> nat \<Rightarrow> linear \<Rightarrow> bool" where
  "Linear_shape input_dim output_dim L \<longleftrightarrow>
     in_features L = input_dim \<and> out_features L = output_dim \<and>
     length (weight L) = output_dim \<and> length (bias L) = output_dim \<and>
     (\<forall>w \<in> set (weight L). length w = input_dim)"

definition dot :: "vec \<Rightarrow> vec \<Rightarrow> real" where
  "dot w x = sum_list (map2 (*) w x)"

definition Linear_row :: "linear \<Rightarrow> vec \<Rightarrow> vec" where
  "Linear_row L x = map2 (\<lambda>w b. dot w x + b) (weight L) (bias L)"

definition Linear_forward :: "linear \<Rightarrow> mat \<Rightarrow> error + mat" where
  "Linear_forward L X =
     (if \<forall>x \<in> set X. length x = in_features L
      then Inr (map (Linear_row L) X)
      else Inl RuntimeError)"

subsection \<open>\<^verbatim>\<open>nn.BatchNorm1d(num_features)\<close> in training mode\<close>

text \<open>
  In training mode the layer normalises every feature with the mean and the biased
  variance of the current batch; \<^verbatim>\<open>torch.nn.functional.batch_norm\<close> first refuses a
  batch that holds a single value per channel
  (\<^verbatim>\<open>ValueError: Expected more than 1 value per channel when training\<close>).
  The running statistics the layer also keeps are buffers that only evaluation mode
  reads; they are not parameters and are left out. A layer of zero features, which the
  library refuses with an \<^verbatim>\<open>IndexError\<close>, is not distinguished: every layer of the
  notebook has at least 128 features.
\<close>

record batchnorm =
  num_features :: nat
  bn_weight :: vec
  bn_bias :: vec

definition BatchNorm_shape :: "nat \<Rightarrow> batchnorm \<Rightarrow> bool" where
  "BatchNorm_shape n N \<longleftrightarrow>
     num_features N = n \<and> length (bn_weight N) = n \<and> length (bn_bias N) = n"

definition bn_eps :: real where
  "bn_eps = 1 / 100000"

definition column :: "nat \<Rightarrow> mat \<Rightarrow> vec" where
  "column j X = map (\<lambda>x. x ! j) X"

definition mean :: "vec \<Rightarrow> real" where
  "mean v = sum_list v / real (length v)"

definition var_biased :: "vec \<Rightarrow> real" where
  "var_biased v = mean (map (\<lambda>a. (a - mean v)\<^sup>2) v)"

definition BatchNorm_row :: "batchnorm \<Rightarrow> mat \<Rightarrow> vec \<Rightarrow> vec" where
  "BatchNorm_row N X x =
     map (\<lambda>j. (x ! j - mean (column j X)) / sqrt (var_biased (column j X) + bn_eps)
                 * bn_weight N ! j + bn_bias N ! j)
         [0..<num_features N]"

definition BatchNorm1d_forward :: "batchnorm \<Rightarrow> mat \<Rightarrow> error + mat" where
  "BatchNorm1d_forward N X =
     (if length X = 1 then Inl ValueError
      else if \<forall>x \<in> set X. length x = num_features N
      then Inr (map (BatchNorm_row N X) X)
      else Inl RuntimeError)"

subsection \<open>Activations and dropout\<close>

definition LeakyReLU :: "real \<Rightarrow> mat \<Rightarrow> mat" where
  "LeakyReLU negative_slope X = map (map (\<lambda>a. max 0 a + negative_slope * min 0 a)) X"

text \<open>
  \<^verbatim>\<open>nn.Dropout(p)\<close> in training mode zeroes an element with probability \<open>p\<close> and scales
  the kept ones by \<open>1 / (1 - p)\<close>. The random choice is the argument \<open>keep\<close>.
\<close>

type_synonym mask = "nat \<Rightarrow> nat \<Rightarrow> bool"

definition Dropout :: "real \<Rightarrow> mask \<Rightarrow> mat \<Rightarrow> mat" where
  "Dropout p keep X =
     map (\<lambda>i. map (\<lambda>j. if keep i j then X ! i ! j / (1 - p) else 0) [0..<length (X ! i)])
         [0..<length X]"

definition sigmoid :: "real \<Rightarrow> real" where
  "sigmoid a = 1 / (1 + exp (- a))"

text \<open>
  \<^verbatim>\<open>nn.Sigmoid()\<close> returns 32-bit floats: the result is the sigmoid rounded to the
  nearest number of the form \<open>m * 2 ^ (e - 23)\<close>, with \<open>e\<close> the binary exponent of the
  value and at least \<open>- 126\<close> (below that the numbers are subnormal). A sigmoid is
  between 0 and 1, so no overflow arises. (A value halfway between two floats is
  rounded up here, to the even one by the hardware.)
\<close>

definition float32_exponent :: "real \<Rightarrow> int" where
  "float32_exponent y = max \<lfloor>log 2 \<bar>y\<bar>\<rfloor> (- 126)"

definition float32 :: "real \<Rightarrow> real" where
  "float32 y =
     (if y = 0 then 0
      else real_of_int (round (y / 2 powr real_of_int (float32_exponent y - 23)))
             * 2 powr real_of_int (float32_exponent y - 23))"

definition Sigmoid :: "mat \<Rightarrow> mat" where
  "Sigmoid X = map (map (\<lambda>a. float32 (sigmoid a))) X"

section \<open>The generator\<close>

text \<open>
  \<^verbatim>\<open>get_generator_block(input_dim, output_dim)\<close> is
  \<^verbatim>\<open>Sequential(Linear, BatchNorm1d, LeakyReLU(0.2), Dropout(0.3))\<close>.
\<close>

record generator_block =
  gb_linear :: linear
  gb_norm :: batchnorm

definition get_generator_block :: "nat \<Rightarrow> nat \<Rightarrow> generator_block \<Rightarrow> bool" where
  "get_generator_block input_dim output_dim blk \<longleftrightarrow>
     Linear_shape input_dim output_dim (gb_linear blk) \<and>
     BatchNorm_shape output_dim (gb_norm blk)"

definition generator_block_forward :: "generator_block \<Rightarrow> mask \<Rightarrow> mat \<Rightarrow> error + mat" where
  "generator_block_forward blk keep X =
     and_then (Linear_forward (gb_linear blk) X) (\<lambda>h.
     and_then (BatchNorm1d_forward (gb_norm blk) h) (\<lambda>n.
     Inr (Dropout (3 / 10) keep (LeakyReLU (2 / 10) n))))"

record generator =
  gen_block1 :: generator_block
  gen_block2 :: generator_block
  gen_block3 :: generator_block
  gen_block4 :: generator_block
  gen_out :: linear

text \<open>The shapes that \<^verbatim>\<open>Generator.__init__(z_dim, img_dim, hidden_dim)\<close> creates.\<close>

definition Generator_init :: "nat \<Rightarrow> nat \<Rightarrow> nat \<Rightarrow> generator \<Rightarrow> bool" where
  "Generator_init z_dim img_dim hidden_dim G \<longleftrightarrow>
     get_generator_block z_dim hidden_dim (gen_block1 G) \<and>
     get_generator_block hidden_dim (hidden_dim * 2) (gen_block2 G) \<and>
     get_generator_block (hidden_dim * 2) (hidden_dim * 4) (gen_block3 G) \<and>
     get_generator_block (hidden_dim * 4) (hidden_dim * 8) (gen_block4 G) \<and>
     Linear_shape (hidden_dim * 8) img_dim (gen_out G)"

text \<open>
  \<^verbatim>\<open>Generator.forward(noise)\<close>; \<open>keeps k\<close> is the mask drawn by the dropout layer of
  block \<open>k\<close>.
\<close>

definition Generator_forward :: "generator \<Rightarrow> (nat \<Rightarrow> mask) \<Rightarrow> mat \<Rightarrow> error + mat" where
  "Generator_forward G keeps noise =
     and_then (generator_block_forward (gen_block1 G) (keeps 0) noise) (\<lambda>h1.
     and_then (generator_block_forward (gen_block2 G) (keeps 1) h1) (\<lambda>h2.
     and_then (generator_block_forward (gen_block3 G) (keeps 2) h2) (\<lambda>h3.
     and_then (generator_block_forward (gen_block4 G) (keeps 3) h3) (\<lambda>h4.
     and_then (Linear_forward (gen_out G) h4) (\<lambda>out.
     Inr (Sigmoid out))))))"

text \<open>
  \<^verbatim>\<open>get_generator_noise(n_sample, z_dim)\<close> is \<^verbatim>\<open>torch.randn(n_sample, z_dim)\<close>: the
  values drawn are the argument \<open>randn\<close>, the shape is the code's.
\<close>

definition get_generator_noise :: "nat \<Rightarrow> nat \<Rightarrow> (nat \<Rightarrow> nat \<Rightarrow> real) \<Rightarrow> mat" where
  "get_generator_noise n_sample z_dim randn =
     map (\<lambda>i. map (\<lambda>j. randn i j) [0..<z_dim]) [0..<n_sample]"

section \<open>The discriminator\<close>

text \<open>
  \<^verbatim>\<open>get_discriminator_block(input_dim, output_dim)\<close> is
  \<^verbatim>\<open>Sequential(Linear, LeakyReLU(0.2))\<close>: its only parameters are those of the
  linear layer.
\<close>

definition get_discriminator_block :: "nat \<Rightarrow> nat \<Rightarrow> linear \<Rightarrow> bool" where
  "get_discriminator_block input_dim output_dim blk \<longleftrightarrow> Linear_shape input_dim output_dim blk"

definition discriminator_block_forward :: "linear \<Rightarrow> mat \<Rightarrow> error + mat" where
  "discriminator_block_forward blk X =
     and_then (Linear_forward blk X) (\<lambda>h. Inr (LeakyReLU (2 / 10) h))"

record discriminator =
  disc_block1 :: linear
  disc_block2 :: linear
  disc_block3 :: linear
  disc_out :: linear

text \<open>The shapes that \<^verbatim>\<open>Discriminator.__init__(img_dim, hidden_dim)\<close> creates.\<close>

definition Discriminator_init :: "nat \<Rightarrow> nat \<Rightarrow> discriminator \<Rightarrow> bool" where
  "Discriminator_init img_dim hidden_dim D \<longleftrightarrow>
     get_discriminator_block img_dim (hidden_dim * 4) (disc_block1 D) \<and>
     get_discriminator_block (hidden_dim * 4) (hidden_dim * 2) (disc_block2 D) \<and>
     get_discriminator_block (hidden_dim * 2) hidden_dim (disc_block3 D) \<and>
     Linear_shape hidden_dim 1 (disc_out D)"

definition Discriminator_forward :: "discriminator \<Rightarrow> mat \<Rightarrow> error + mat" where
  "Discriminator_forward D img =
     and_then (discriminator_block_forward (disc_block1 D) img) (\<lambda>h1.
     and_then (discriminator_block_forward (disc_block2 D) h1) (\<lambda>h2.
     and_then (discriminator_block_forward (disc_block3 D) h2) (\<lambda>h3.
     Linear_forward (disc_out D) h3)))"

section \<open>Tensors that remember whose parameters they depend on\<close>

text \<open>
  \<^verbatim>\<open>backward()\<close> deposits a gradient in every parameter that the autograd graph of
  the loss reaches. A tensor therefore carries, next to its value, the set of networks
  whose parameters its graph reaches: calling a network adds that network,
  \<^verbatim>\<open>detach()\<close> empties the set, and an operation on tensors joins the sets of its
  operands. Freshly created tensors (noise, data, \<^verbatim>\<open>zeros_like\<close>, \<^verbatim>\<open>ones_like\<close>)
  reach nothing.
\<close>

datatype network = Gen | Disc

record 'a tensor =
  data :: 'a
  graph :: "network set"

definition fresh :: "'a \<Rightarrow> 'a tensor" where
  "fresh v = \<lparr>data = v, graph = {}\<rparr>"

definition detach :: "'a tensor \<Rightarrow> 'a tensor" where
  "detach t = \<lparr>data = data t, graph = {}\<rparr>"

definition zeros_like :: "mat tensor \<Rightarrow> mat tensor" where
  "zeros_like t = fresh (map (map (\<lambda>_. 0)) (data t))"

definition ones_like :: "mat tensor \<Rightarrow> mat tensor" where
  "ones_like t = fresh (map (map (\<lambda>_. 1)) (data t))"

definition gen_call :: "generator \<Rightarrow> (nat \<Rightarrow> mask) \<Rightarrow> mat tensor \<Rightarrow> error + mat tensor" where
  "gen_call gen keeps t =
     and_then (Generator_forward gen keeps (data t)) (\<lambda>out.
     Inr \<lparr>data = out, graph = insert Gen (graph t)\<rparr>)"

definition disc_call :: "discriminator \<Rightarrow> mat tensor \<Rightarrow> error + mat tensor" where
  "disc_call disc t =
     and_then (Discriminator_forward disc (data t)) (\<lambda>out.
     Inr \<lparr>data = out, graph = insert Disc (graph t)\<rparr>)"

definition tensor_add :: "real tensor \<Rightarrow> real tensor \<Rightarrow> real tensor" where
  "tensor_add a b = \<lparr>data = data a + data b, graph = graph a \<union> graph b\<rparr>"

definition tensor_div :: "real tensor \<Rightarrow> real \<Rightarrow> real tensor" where
  "tensor_div a c = \<lparr>data = data a / c, graph = graph a\<rparr>"

subsection \<open>\<^verbatim>\<open>nn.BCEWithLogitsLoss()\<close>\<close>

text \<open>
  With the default mean reduction the loss is the mean over all elements of
  \<open>- (y * log (sigmoid x) + (1 - y) * log (1 - sigmoid x))\<close>; input and target must
  have the same size. The library's mean of an empty tensor is not a number, which a
  real number cannot express: the theorems about the value of a loss are stated for
  batches that are not empty, as all batches of the notebook are. The mean is the
  exact one; the library adds 32-bit floats in an order of its own, and its result
  agrees with the exact mean up to the rounding of those additions.
\<close>

definition bce :: "real \<Rightarrow> real \<Rightarrow> real" where
  "bce x y = - (y * ln (sigmoid x) + (1 - y) * ln (1 - sigmoid x))"

definition bce_mean :: "mat \<Rightarrow> mat \<Rightarrow> real" where
  "bce_mean input target = mean (map2 bce (concat input) (concat target))"

definition BCEWithLogitsLoss :: "mat tensor \<Rightarrow> mat tensor \<Rightarrow> error + real tensor" where
  "BCEWithLogitsLoss input target =
     (if map length (data input) = map length (data target)
      then Inr \<lparr>data = bce_mean (data input) (data target),
                graph = graph input \<union> graph target\<rparr>
      else Inl ValueError)"

section \<open>The two losses\<close>

text \<open>
  One use of the generator draws a noise matrix and, inside the forward pass, the four
  dropout masks.
\<close>

record draw =
  dr_randn :: "nat \<Rightarrow> nat \<Rightarrow> real"
  dr_keeps :: "nat \<Rightarrow> mask"

type_synonym loss_fn = "mat tensor \<Rightarrow> mat tensor \<Rightarrow> error + real tensor"

definition get_discriminator_loss ::
  "generator \<Rightarrow> discriminator \<Rightarrow> loss_fn \<Rightarrow> mat tensor \<Rightarrow> nat \<Rightarrow> nat \<Rightarrow> draw
     \<Rightarrow> error + real tensor" where
  "get_discriminator_loss gen disc criterion real_batch num_images z_dim dr =
     (let noise = fresh (get_generator_noise num_images z_dim (dr_randn dr)) in
      and_then (gen_call gen (dr_keeps dr) noise) (\<lambda>gen_output.
      and_then (disc_call disc (detach gen_output)) (\<lambda>disc_out_fake.
      and_then (criterion disc_out_fake (zeros_like disc_out_fake)) (\<lambda>disc_loss_fake.
      and_then (disc_call disc real_batch) (\<lambda>disc_out_real.
      and_then (criterion disc_out_real (ones_like disc_out_real)) (\<lambda>disc_loss_real.
      Inr (tensor_div (tensor_add disc_loss_fake disc_loss_real) 2)))))))"

definition get_generator_loss ::
  "generator \<Rightarrow> discriminator \<Rightarrow> loss_fn \<Rightarrow> nat \<Rightarrow> nat \<Rightarrow> draw \<Rightarrow> error + real tensor" where
  "get_generator_loss gen disc criterion num_images z_dim dr =
     (let noise = fresh (get_generator_noise num_images z_dim (dr_randn dr)) in
      and_then (gen_call gen (dr_keeps dr) noise) (\<lambda>gen_output.
      and_then (disc_call disc gen_output) (\<lambda>disc_preds.
      criterion disc_preds (ones_like disc_preds))))"

section \<open>The training loop\<close>

text \<open>The constants of the cells \<^emph>\<open>Set your parameters\<close> and \<^emph>\<open>Training Loop\<close>.\<close>

definition criterion :: loss_fn where
  "criterion = BCEWithLogitsLoss"

definition num_epochs :: int where
  "num_epochs = 51"

definition z_dim :: nat where
  "z_dim = 64"

definition display_step :: int where
  "display_step = 100"

definition img_show :: int where
  "img_show = 3"

definition batch_size :: nat where
  "batch_size = 128"

subsection \<open>Gradients and optimizers\<close>

text \<open>
  The numbers a backward pass computes are not modelled. A gradient is named by the
  loss call it is the gradient of (the arguments of that call determine it), and the
  \<^verbatim>\<open>.grad\<close> of a network's parameters is the list of gradients accumulated since
  the last \<^verbatim>\<open>zero_grad()\<close>, standing for their sum.
\<close>

datatype gradient =
  grad_of_disc_loss generator discriminator mat nat draw
| grad_of_gen_loss generator discriminator nat draw

text \<open>
  \<^verbatim>\<open>torch.optim.Adam(net.parameters(), lr=lr)\<close> holds the parameters of one network.
  Its \<^verbatim>\<open>step()\<close> computes, from its own state, those parameters and their
  \<^verbatim>\<open>.grad\<close>, its new state and the new parameters; which function that is stays
  open.
\<close>

type_synonym ('o, 'p) optimizer = "'o \<Rightarrow> 'p \<Rightarrow> gradient list \<Rightarrow> 'o \<times> 'p"

subsection \<open>The state of the notebook\<close>

record report =
  rp_epoch :: int
  rp_step :: int
  rp_total :: int
  rp_generator_loss :: real
  rp_discriminator_loss :: real

text \<open>
  The field \<open>events\<close> is an observation log of the four landmark statements of a step,
  in the order in which they run; nothing reads it.
\<close>

datatype event =
  Disc_loss_computed discriminator real nat
    \<comment> \<open>discriminator passed to the loss, \<^verbatim>\<open>disc_loss.item()\<close>, \<^verbatim>\<open>cur_batch_size\<close>\<close>
| Disc_stepped discriminator
    \<comment> \<open>the discriminator after \<^verbatim>\<open>disc_optimizer.step()\<close>\<close>
| Gen_loss_computed discriminator real nat
    \<comment> \<open>discriminator passed to the loss, \<^verbatim>\<open>gen_loss.item()\<close>, \<^verbatim>\<open>cur_batch_size\<close>\<close>
| Gen_stepped generator
    \<comment> \<open>the generator after \<^verbatim>\<open>gen_optimizer.step()\<close>\<close>

record ('og, 'od) session =
  generator :: generator
  discriminator :: discriminator
  gen_grad :: "gradient list"
  disc_grad :: "gradient list"
  gen_optimizer :: 'og
  disc_optimizer :: 'od
  img_list :: "mat list"
  G_losses :: "real list"
  D_losses :: "real list"
  cur_step :: int
  mean_generator_loss :: real
  mean_discriminator_loss :: real
  last_real :: "mat option"   \<comment> \<open>the variable \<^verbatim>\<open>real\<close>, unbound before the first batch\<close>
  console :: "report list"
  shown :: "(mat \<times> mat) list"
  events :: "event list"

definition initial_session :: "generator \<Rightarrow> 'og \<Rightarrow> discriminator \<Rightarrow> 'od \<Rightarrow> ('og, 'od) session" where
  "initial_session gen og disc od =
     \<lparr>generator = gen, discriminator = disc, gen_grad = [], disc_grad = [],
      gen_optimizer = og, disc_optimizer = od,
      img_list = [], G_losses = [], D_losses = [], cur_step = 0,
      mean_generator_loss = 0, mean_discriminator_loss = 0,
      last_real = None, console = [], shown = [], events = []\<rparr>"

text \<open>\<^verbatim>\<open>loss.backward()\<close>: every network the graph of the loss reaches accumulates \<open>g\<close>.\<close>

definition backward :: "gradient \<Rightarrow> real tensor \<Rightarrow> ('og, 'od) session \<Rightarrow> ('og, 'od) session" where
  "backward g loss st =
     st\<lparr>gen_grad := (if Gen \<in> graph loss then gen_grad st @ [g] else gen_grad st),
        disc_grad := (if Disc \<in> graph loss then disc_grad st @ [g] else disc_grad st)\<rparr>"

subsection \<open>One batch\<close>

text \<open>
  A batch from the loader has shape \<open>[batch, channels, height, width]\<close>;
  \<^verbatim>\<open>real.view(cur_batch_size, -1)\<close> flattens every image and cannot infer the second
  dimension of an empty tensor.
\<close>

type_synonym image = "real list list list"

definition view_flat :: "image list \<Rightarrow> error + mat" where
  "view_flat imgs =
     (if imgs = [] then Inl RuntimeError else Inr (map (\<lambda>im. concat (concat im)) imgs))"

record batch_input =
  real_images :: "image list"
  draw_disc :: draw   \<comment> \<open>drawn inside \<^verbatim>\<open>get_discriminator_loss\<close>\<close>
  draw_gen :: draw    \<comment> \<open>drawn inside \<^verbatim>\<open>get_generator_loss\<close>\<close>
  draw_show :: draw   \<comment> \<open>drawn for the snapshot, when there is one\<close>

text \<open>
  \<^verbatim>\<open>disc_optimizer.zero_grad()\<close>, the discriminator loss, its backward pass and
  \<^verbatim>\<open>disc_optimizer.step()\<close>. The result carries \<^verbatim>\<open>disc_loss.item()\<close>.
\<close>

definition disc_update ::
  "('od, discriminator) optimizer \<Rightarrow> ('og, 'od) session \<Rightarrow> mat \<Rightarrow> nat \<Rightarrow> draw
     \<Rightarrow> error + ('og, 'od) session \<times> real" where
  "disc_update disc_opt_step st real_batch cur_batch_size dr =
     (let st1 = st\<lparr>disc_grad := []\<rparr> in
      and_then (get_discriminator_loss (generator st1) (discriminator st1) criterion
                  (fresh real_batch) cur_batch_size z_dim dr) (\<lambda>disc_loss.
      let st2 = backward (grad_of_disc_loss (generator st1) (discriminator st1)
                            real_batch cur_batch_size dr) disc_loss st1;
          st3 = st2\<lparr>events := events st2 @
                   [Disc_loss_computed (discriminator st2) (data disc_loss) cur_batch_size]\<rparr>;
          stepped = disc_opt_step (disc_optimizer st3) (discriminator st3) (disc_grad st3);
          st4 = st3\<lparr>disc_optimizer := fst stepped, discriminator := snd stepped\<rparr>;
          st5 = st4\<lparr>events := events st4 @ [Disc_stepped (discriminator st4)]\<rparr>
      in Inr (st5, data disc_loss)))"

text \<open>
  \<^verbatim>\<open>gen_optimizer.zero_grad()\<close>, the generator loss, its backward pass and
  \<^verbatim>\<open>gen_optimizer.step()\<close>. The result carries \<^verbatim>\<open>gen_loss.item()\<close>.
\<close>

definition gen_update ::
  "('og, generator) optimizer \<Rightarrow> ('og, 'od) session \<Rightarrow> nat \<Rightarrow> draw
     \<Rightarrow> error + ('og, 'od) session \<times> real" where
  "gen_update gen_opt_step st cur_batch_size dr =
     (let st1 = st\<lparr>gen_grad := []\<rparr> in
      and_then (get_generator_loss (generator st1) (discriminator st1) criterion
                  cur_batch_size z_dim dr) (\<lambda>gen_loss.
      let st2 = backward (grad_of_gen_loss (generator st1) (discriminator st1)
                            cur_batch_size dr) gen_loss st1;
          st3 = st2\<lparr>events := events st2 @
                   [Gen_loss_computed (discriminator st2) (data gen_loss) cur_batch_size]\<rparr>;
          stepped = gen_opt_step (gen_optimizer st3) (generator st3) (gen_grad st3);
          st4 = st3\<lparr>gen_optimizer := fst stepped, generator := snd stepped\<rparr>;
          st5 = st4\<lparr>events := events st4 @ [Gen_stepped (generator st4)]\<rparr>
      in Inr (st5, data gen_loss)))"

text \<open>The two \<^verbatim>\<open>+=\<close> on the running losses and the two \<^verbatim>\<open>append\<close>.\<close>

definition record_losses ::
  "('og, 'od) session \<Rightarrow> real \<Rightarrow> real \<Rightarrow> nat \<Rightarrow> ('og, 'od) session" where
  "record_losses st disc_loss_item gen_loss_item cur_batch_size =
     (let st1 = st\<lparr>mean_discriminator_loss :=
                     mean_discriminator_loss st + disc_loss_item / real cur_batch_size\<rparr>;
          st2 = st1\<lparr>mean_generator_loss :=
                     mean_generator_loss st1 + gen_loss_item / real cur_batch_size\<rparr>;
          st3 = st2\<lparr>G_losses := G_losses st2 @ [mean_discriminator_loss st2]\<rparr>;
          st4 = st3\<lparr>D_losses := D_losses st3 @ [mean_generator_loss st3]\<rparr>
      in st4)"

text \<open>
  The body of \<^verbatim>\<open>if cur_step % display_step == 0 and cur_step >= 0\<close>: the printed line,
  a forward pass of the generator on fresh noise, the snapshot (\<^verbatim>\<open>make_grid\<close> of the
  first 36 generated images, kept here as those images) and the reset of both running
  losses.
\<close>

definition display ::
  "int \<Rightarrow> int \<Rightarrow> ('og, 'od) session \<Rightarrow> nat \<Rightarrow> draw \<Rightarrow> error + ('og, 'od) session" where
  "display epoch len_train_loader st cur_batch_size dr =
     (if cur_step st mod display_step = 0 \<and> cur_step st \<ge> 0 then
        let st1 = st\<lparr>console := console st @
                      [\<lparr>rp_epoch = epoch, rp_step = cur_step st,
                        rp_total = num_epochs * len_train_loader,
                        rp_generator_loss = mean_generator_loss st,
                        rp_discriminator_loss = mean_discriminator_loss st\<rparr>]\<rparr>;
            fake_noise = fresh (get_generator_noise cur_batch_size z_dim (dr_randn dr))
        in and_then (gen_call (generator st1) (dr_keeps dr) fake_noise) (\<lambda>fake.
           Inr (st1\<lparr>img_list := img_list st1 @ [take 36 (data (detach fake))],
                    mean_discriminator_loss := 0,
                    mean_generator_loss := 0\<rparr>))
      else Inr st)"

text \<open>The body of \<^verbatim>\<open>for real, _ in tqdm(train_loader)\<close>.\<close>

definition train_step ::
  "('og, generator) optimizer \<Rightarrow> ('od, discriminator) optimizer \<Rightarrow> int \<Rightarrow> int
     \<Rightarrow> ('og, 'od) session \<Rightarrow> batch_input \<Rightarrow> error + ('og, 'od) session" where
  "train_step gen_opt_step disc_opt_step epoch len_train_loader st b =
     (let cur_batch_size = length (real_images b) in
      and_then (view_flat (real_images b)) (\<lambda>real_batch.
      let st0 = st\<lparr>last_real := Some real_batch\<rparr> in
      and_then (disc_update disc_opt_step st0 real_batch cur_batch_size (draw_disc b))
        (\<lambda>(st1, disc_loss_item).
      and_then (gen_update gen_opt_step st1 cur_batch_size (draw_gen b))
        (\<lambda>(st2, gen_loss_item).
      and_then (display epoch len_train_loader
                  (record_losses st2 disc_loss_item gen_loss_item cur_batch_size)
                  cur_batch_size (draw_show b)) (\<lambda>st3.
      Inr (st3\<lparr>cur_step := cur_step st3 + 1\<rparr>))))))"

fun run_batches ::
  "('og, generator) optimizer \<Rightarrow> ('od, discriminator) optimizer \<Rightarrow> int \<Rightarrow> int
     \<Rightarrow> ('og, 'od) session \<Rightarrow> batch_input list \<Rightarrow> error + ('og, 'od) session" where
  "run_batches gen_opt_step disc_opt_step epoch len_train_loader st [] = Inr st"
| "run_batches gen_opt_step disc_opt_step epoch len_train_loader st (b # bs) =
     and_then (train_step gen_opt_step disc_opt_step epoch len_train_loader st b) (\<lambda>st'.
     run_batches gen_opt_step disc_opt_step epoch len_train_loader st' bs)"

subsection \<open>One epoch and the whole run\<close>

datatype loop_error = Raised error | NameError

text \<open>
  After the batches of an epoch, \<^verbatim>\<open>if epoch % img_show == 0\<close> generates
  \<^verbatim>\<open>cur_batch_size\<close> images and hands them with \<^verbatim>\<open>real\<close> to
  \<^verbatim>\<open>show_tensor_images\<close>; both names are those of the last batch.
\<close>

definition end_of_epoch ::
  "int \<Rightarrow> ('og, 'od) session \<Rightarrow> draw \<Rightarrow> loop_error + ('og, 'od) session" where
  "end_of_epoch epoch st dr =
     (if epoch mod img_show = 0 then
        (case last_real st of
           None \<Rightarrow> Inl NameError
         | Some real_batch \<Rightarrow>
             (let fake_noise = fresh (get_generator_noise (length real_batch) z_dim (dr_randn dr))
              in case gen_call (generator st) (dr_keeps dr) fake_noise of
                   Inl e \<Rightarrow> Inl (Raised e)
                 | Inr fake \<Rightarrow> Inr (st\<lparr>shown := shown st @ [(real_batch, data fake)]\<rparr>)))
      else Inr st)"

definition train_epoch ::
  "('og, generator) optimizer \<Rightarrow> ('od, discriminator) optimizer \<Rightarrow> int \<Rightarrow> int
     \<Rightarrow> ('og, 'od) session \<Rightarrow> batch_input list \<times> draw \<Rightarrow> loop_error + ('og, 'od) session" where
  "train_epoch gen_opt_step disc_opt_step epoch len_train_loader st ep =
     (case run_batches gen_opt_step disc_opt_step epoch len_train_loader st (fst ep) of
        Inl e \<Rightarrow> Inl (Raised e)
      | Inr st' \<Rightarrow> end_of_epoch epoch st' (snd ep))"

text \<open>
  \<^verbatim>\<open>for epoch in range(num_epochs)\<close>: the argument lists, for the epochs still to run
  (51 of them at the start), the batches the loader yields and the draw of the end of
  the epoch.
\<close>

fun training_loop ::
  "('og, generator) optimizer \<Rightarrow> ('od, discriminator) optimizer \<Rightarrow> int \<Rightarrow> int
     \<Rightarrow> ('og, 'od) session \<Rightarrow> (batch_input list \<times> draw) list
     \<Rightarrow> loop_error + ('og, 'od) session" where
  "training_loop gen_opt_step disc_opt_step epoch len_train_loader st [] = Inr st"
| "training_loop gen_opt_step disc_opt_step epoch len_train_loader st (ep # eps) =
     (case train_epoch gen_opt_step disc_opt_step epoch len_train_loader st ep of
        Inl e \<Rightarrow> Inl e
      | Inr st' \<Rightarrow> training_loop gen_opt_step disc_opt_step (epoch + 1) len_train_loader st' eps)"

subsection \<open>The loader\<close>

text \<open>
  \<^verbatim>\<open>DataLoader(data_train, batch_size=batch_size, shuffle=True)\<close> cuts the shuffled
  examples into consecutive batches; \<^verbatim>\<open>drop_last\<close> is left at its default
  \<^verbatim>\<open>False\<close>, so a shorter last batch is yielded too, and the length of the loader
  is the number of examples divided by the batch size, rounded up. (The loader refuses
  to be built with batch size 0; the sampler below then yields nothing.)
\<close>

function batch_sampler :: "nat \<Rightarrow> bool \<Rightarrow> 'a list \<Rightarrow> 'a list list" where
  "batch_sampler n drop_last xs =
     (if n = 0 then []
      else if n \<le> length xs then take n xs # batch_sampler n drop_last (drop n xs)
      else if xs \<noteq> [] \<and> \<not> drop_last then [xs]
      else [])"
  by pat_completeness auto
termination
  by (relation "measure (\<lambda>(n, d, xs). length xs)") auto

declare batch_sampler.simps [simp del]

definition train_loader :: "'a list \<Rightarrow> 'a list list" where
  "train_loader shuffled = batch_sampler batch_size False shuffled"

definition len_loader :: "nat \<Rightarrow> bool \<Rightarrow> nat \<Rightarrow> nat" where
  "len_loader n drop_last len_dataset =
     (if drop_last then len_dataset div n else (len_dataset + n - 1) div n)"

text \<open>A matrix of shape \<open>[b, n]\<close>.\<close>

definition has_shape :: "nat \<Rightarrow> nat \<Rightarrow> mat \<Rightarrow> bool" where
  "has_shape b n X \<longleftrightarrow> length X = b \<and> (\<forall>x \<in> set X. length x = n)"

section \<open>What the notebook builds and what the loader yields\<close>

text \<open>
  \<^verbatim>\<open>Generator(z_dim)\<close> and \<^verbatim>\<open>Discriminator()\<close> take the default image dimension
  \<open>28 * 28\<close> and the default hidden width 128.
\<close>

definition notebook_networks :: "generator \<Rightarrow> discriminator \<Rightarrow> bool" where
  "notebook_networks gen disc \<longleftrightarrow>
     Generator_init z_dim (28 * 28) 128 gen \<and> Discriminator_init (28 * 28) 128 disc"

text \<open>An optimizer step updates the values of the parameters, not their shapes.\<close>

definition preserves :: "('p \<Rightarrow> bool) \<Rightarrow> ('o, 'p) optimizer \<Rightarrow> bool" where
  "preserves P opt_step \<longleftrightarrow> (\<forall>s p g. P p \<longrightarrow> P (snd (opt_step s p g)))"

definition shape_preserving ::
  "('og, generator) optimizer \<Rightarrow> ('od, discriminator) optimizer \<Rightarrow> bool" where
  "shape_preserving gen_opt_step disc_opt_step \<longleftrightarrow>
     preserves (Generator_init z_dim (28 * 28) 128) gen_opt_step \<and>
     preserves (Discriminator_init (28 * 28) 128) disc_opt_step"

text \<open>An image of the data set has shape \<open>[1, 28, 28]\<close> (\<^verbatim>\<open>size = (1, 28, 28)\<close>).\<close>

definition image_shape :: "nat \<Rightarrow> nat \<Rightarrow> nat \<Rightarrow> image \<Rightarrow> bool" where
  "image_shape c h w im \<longleftrightarrow>
     length im = c \<and> (\<forall>ch \<in> set im. length ch = h \<and> (\<forall>r \<in> set ch. length r = w))"

definition fashion_image :: "image \<Rightarrow> bool" where
  "fashion_image im \<longleftrightarrow> image_shape 1 28 28 im"

text \<open>
  A batch the training step can process: at least two images of the data set (the
  loader yields no empty batch, and the generator's batch normalisation refuses a
  batch of one).
\<close>

definition trainable_batch :: "batch_input \<Rightarrow> bool" where
  "trainable_batch b \<longleftrightarrow>
     2 \<le> length (real_images b) \<and> (\<forall>im \<in> set (real_images b). fashion_image im)"

definition trainable_epoch :: "batch_input list \<times> draw \<Rightarrow> bool" where
  "trainable_epoch ep \<longleftrightarrow> fst ep \<noteq> [] \<and> (\<forall>b \<in> set (fst ep). trainable_batch b)"

section \<open>Reading the observation log and the loss curves\<close>

text \<open>
  The log of a run is made of blocks of four events, one block per batch; in every
  block the generator loss was passed the very discriminator that the optimizer step
  just before it produced.
\<close>

fun alternating :: "event list \<Rightarrow> bool" where
  "alternating [] = True"
| "alternating (Disc_loss_computed d0 v n # Disc_stepped d1 # Gen_loss_computed d2 w m
                  # Gen_stepped g # es) = (d2 = d1 \<and> alternating es)"
| "alternating _ = False"

text \<open>
  The terms \<^verbatim>\<open>disc_loss.item() / cur_batch_size\<close> and
  \<^verbatim>\<open>gen_loss.item() / cur_batch_size\<close> of the successive batches.
\<close>

fun disc_loss_terms :: "event list \<Rightarrow> real list" where
  "disc_loss_terms [] = []"
| "disc_loss_terms (Disc_loss_computed d v n # es) = v / real n # disc_loss_terms es"
| "disc_loss_terms (e # es) = disc_loss_terms es"

fun gen_loss_terms :: "event list \<Rightarrow> real list" where
  "gen_loss_terms [] = []"
| "gen_loss_terms (Gen_loss_computed d v n # es) = v / real n # gen_loss_terms es"
| "gen_loss_terms (e # es) = gen_loss_terms es"

text \<open>
  The first step whose term is still in the running loss when step \<open>k\<close> appends it:
  the step after the last reset before \<open>k\<close>.
\<close>

definition window_start :: "nat \<Rightarrow> nat" where
  "window_start k =
     (if k = 0 then 0 else ((k - 1) div nat display_step) * nat display_step + 1)"

text \<open>
  What the loss curves and the running losses hold after \<open>n\<close> steps, in terms of the
  per-batch terms read off the log.
\<close>

definition curves_recorded :: "('og, 'od) session \<Rightarrow> bool" where
  "curves_recorded st \<longleftrightarrow>
     cur_step st = int (length (G_losses st)) \<and>
     length (D_losses st) = length (G_losses st) \<and>
     length (disc_loss_terms (events st)) = length (G_losses st) \<and>
     length (gen_loss_terms (events st)) = length (G_losses st) \<and>
     length (events st) = 4 * length (G_losses st) \<and>
     mean_discriminator_loss st =
       (\<Sum>i = window_start (length (G_losses st))..<length (G_losses st).
          disc_loss_terms (events st) ! i) \<and>
     mean_generator_loss st =
       (\<Sum>i = window_start (length (G_losses st))..<length (G_losses st).
          gen_loss_terms (events st) ! i) \<and>
     (\<forall>k < length (G_losses st).
        G_losses st ! k = (\<Sum>i = window_start k..k. disc_loss_terms (events st) ! i) \<and>
        D_losses st ! k = (\<Sum>i = window_start k..k. gen_loss_terms (events st) ! i))"

definition consistent :: "('og, 'od) session \<Rightarrow> bool" where
  "consistent st \<longleftrightarrow>
     notebook_networks (generator st) (discriminator st) \<and>
     alternating (events st) \<and> curves_recorded st"

text \<open>The number of batches of a run.\<close>

definition total_batches :: "(batch_input list \<times> draw) list \<Rightarrow> nat" where
  "total_batches eps = sum_list (map (\<lambda>ep. length (fst ep)) eps)"

section \<open>Concrete networks and inputs\<close>

text \<open>
  Networks of any size with constant weights, and inputs of any size with constant
  values, on which the theorems below are instantiated. Batch normalisation starts, as
  in the library, with weight 1 and bias 0.
\<close>

definition example_linear :: "nat \<Rightarrow> nat \<Rightarrow> linear" where
  "example_linear i n =
     \<lparr>in_features = i, out_features = n,
      weight = replicate n (replicate i (1 / 10)), bias = replicate n 0\<rparr>"

definition example_block :: "nat \<Rightarrow> nat \<Rightarrow> generator_block" where
  "example_block i n =
     \<lparr>gb_linear = example_linear i n,
      gb_norm = \<lparr>num_features = n, bn_weight = replicate n 1, bn_bias = replicate n 0\<rparr>\<rparr>"

definition example_generator :: "nat \<Rightarrow> nat \<Rightarrow> nat \<Rightarrow> generator" where
  "example_generator z i h =
     \<lparr>gen_block1 = example_block z h,
      gen_block2 = example_block h (h * 2),
      gen_block3 = example_block (h * 2) (h * 4),
      gen_block4 = example_block (h * 4) (h * 8),
      gen_out = example_linear (h * 8) i\<rparr>"


definition example_discriminator :: "nat \<Rightarrow> nat \<Rightarrow> discriminator" where
  "example_discriminator i h =
     \<lparr>disc_block1 = example_linear i (h * 4),
      disc_block2 = example_linear (h * 4) (h * 2),
      disc_block3 = example_linear (h * 2) h,
      disc_out = example_linear h 1\<rparr>"

definition keep_all :: "nat \<Rightarrow> mask" where
  "keep_all k i j = True"

definition example_randn :: "nat \<Rightarrow> nat \<Rightarrow> real" where
  "example_randn i j = (if even (i + j) then 1 / 2 else - 1 / 2)"

definition example_draw :: draw where
  "example_draw = \<lparr>dr_randn = example_randn, dr_keeps = keep_all\<rparr>"

definition example_real :: "nat \<Rightarrow> nat \<Rightarrow> mat" where
  "example_real b n = replicate b (replicate n (1 / 2))"

definition example_image :: image where
  "example_image = replicate 1 (replicate 28 (replicate 28 (1 / 2)))"

definition example_batch :: "image list \<Rightarrow> batch_input" where
  "example_batch imgs =
     \<lparr>real_images = imgs, draw_disc = example_draw, draw_gen = example_draw,
      draw_show = example_draw\<rparr>"

text \<open>
  Optimizers for the examples: a step halves the parameters of the output layer of its
  network and counts the steps taken.
\<close>

definition halve_linear :: "linear \<Rightarrow> linear" where
  "halve_linear L =
     L\<lparr>weight := map (map (\<lambda>w. w / 2)) (weight L), bias := map (\<lambda>b. b / 2) (bias L)\<rparr>"

definition example_gen_step :: "(nat, generator) optimizer" where
  "example_gen_step s G g = (Suc s, G\<lparr>gen_out := halve_linear (gen_out G)\<rparr>)"

definition example_disc_step :: "(nat, discriminator) optimizer" where
  "example_disc_step s D g = (Suc s, D\<lparr>disc_out := halve_linear (disc_out D)\<rparr>)"

text \<open>The notebook's networks before the first batch, and a batch of two images.\<close>

definition example_session :: "(nat, nat) session" where
  "example_session =
     initial_session (example_generator z_dim (28 * 28) 128) 0 (example_discriminator (28 * 28) 128) 0"

definition example_pair :: batch_input where
  "example_pair = example_batch [example_image, example_image]"

text \<open>One epoch of three batches.\<close>

definition example_epochs :: "(batch_input list \<times> draw) list" where
  "example_epochs = [([example_pair, example_pair, example_pair], example_draw)]"

text \<open>A real batch of two distinct flattened images, in both orders.\<close>

definition example_rows :: mat where
  "example_rows = [replicate 784 0, replicate 784 1]"

definition example_rows_swapped :: mat where
  "example_rows_swapped = [replicate 784 1, replicate 784 0]"

section \<open>Shapes through the layers\<close>

lemma Linear_forward_shape:
  assumes "Linear_shape i n L" and "has_shape b i X"
  shows "\<exists>Y. Linear_forward L X = Inr Y \<and> has_shape b n Y"
  using assms
  by (auto simp: Linear_shape_def has_shape_def Linear_forward_def Linear_row_def)

lemma BatchNorm1d_forward_shape:
  assumes "BatchNorm_shape n N" and "has_shape b n X" and "b \<noteq> 1"
  shows "\<exists>Y. BatchNorm1d_forward N X = Inr Y \<and> has_shape b n Y"
  using assms
  by (auto simp: BatchNorm_shape_def has_shape_def BatchNorm1d_forward_def BatchNorm_row_def)

lemma LeakyReLU_shape: "has_shape b n X \<Longrightarrow> has_shape b n (LeakyReLU s X)"
  by (auto simp: has_shape_def LeakyReLU_def)

lemma Dropout_shape: "has_shape b n X \<Longrightarrow> has_shape b n (Dropout p keep X)"
  by (auto simp: has_shape_def Dropout_def)

lemma generator_block_forward_shape:
  assumes "get_generator_block i n blk" and "has_shape b i X" and "b \<noteq> 1"
  shows "\<exists>Y. generator_block_forward blk keep X = Inr Y \<and> has_shape b n Y"
proof -
  from assms obtain H where H: "Linear_forward (gb_linear blk) X = Inr H" "has_shape b n H"
    using Linear_forward_shape unfolding get_generator_block_def by blast
  from assms H obtain Y where Y: "BatchNorm1d_forward (gb_norm blk) H = Inr Y" "has_shape b n Y"
    using BatchNorm1d_forward_shape unfolding get_generator_block_def by blast
  show ?thesis
    using H Y by (simp add: generator_block_forward_def and_then_def LeakyReLU_shape Dropout_shape)
qed








lemma Sigmoid_shape: "has_shape b n X \<Longrightarrow> has_shape b n (Sigmoid X)"
  by (auto simp: has_shape_def Sigmoid_def)


lemma Generator_forward_hidden:
  assumes "Generator_init Z img_dim hidden_dim G" and "has_shape b Z noise" and "b \<noteq> 1"
  shows "\<exists>h4. has_shape b (hidden_dim * 8) h4 \<and>
              Generator_forward G keeps noise =
                and_then (Linear_forward (gen_out G) h4) (\<lambda>out. Inr (Sigmoid out))"
proof -
  note blk = generator_block_forward_shape
  from assms obtain h1 where h1:
    "generator_block_forward (gen_block1 G) (keeps 0) noise = Inr h1" "has_shape b hidden_dim h1"
    using blk unfolding Generator_init_def by blast
  from assms h1 obtain h2 where h2:
    "generator_block_forward (gen_block2 G) (keeps 1) h1 = Inr h2" "has_shape b (hidden_dim * 2) h2"
    using blk unfolding Generator_init_def by blast
  from assms h2 obtain h3 where h3:
    "generator_block_forward (gen_block3 G) (keeps 2) h2 = Inr h3" "has_shape b (hidden_dim * 4) h3"
    using blk unfolding Generator_init_def by blast
  from assms h3 obtain h4 where h4:
    "generator_block_forward (gen_block4 G) (keeps 3) h3 = Inr h4" "has_shape b (hidden_dim * 8) h4"
    using blk unfolding Generator_init_def by blast
  have "Generator_forward G keeps noise =
          and_then (Linear_forward (gen_out G) h4) (\<lambda>out. Inr (Sigmoid out))"
    using h1 h2 h3 h4 by (simp add: Generator_forward_def and_then_def)
  with h4(2) show ?thesis by blast
qed

lemma Generator_forward_Sigmoid:
  assumes "Generator_init Z img_dim hidden_dim G" and "has_shape b Z noise" and "b \<noteq> 1"
  shows "\<exists>out. Generator_forward G keeps noise = Inr (Sigmoid out) \<and> has_shape b img_dim out"
proof -
  from Generator_forward_hidden [OF assms] obtain h4 where h4:
    "has_shape b (hidden_dim * 8) h4"
    "Generator_forward G keeps noise =
       and_then (Linear_forward (gen_out G) h4) (\<lambda>out. Inr (Sigmoid out))"
    by blast
  from assms(1) h4(1) obtain out where out:
    "Linear_forward (gen_out G) h4 = Inr out" "has_shape b img_dim out"
    using Linear_forward_shape unfolding Generator_init_def by blast
  have "Generator_forward G keeps noise = Inr (Sigmoid out)"
    using h4(2) out(1) by (simp add: and_then_def)
  with out show ?thesis by blast
qed

lemma get_generator_noise_shape: "has_shape n z (get_generator_noise n z randn)"
  by (auto simp: has_shape_def get_generator_noise_def)

lemma discriminator_block_forward_shape:
  assumes "get_discriminator_block i n blk" and "has_shape b i X"
  shows "\<exists>Y. discriminator_block_forward blk X = Inr Y \<and> has_shape b n Y"
proof -
  from assms obtain H where H: "Linear_forward blk X = Inr H" "has_shape b n H"
    using Linear_forward_shape unfolding get_discriminator_block_def by blast
  then show ?thesis
    by (simp add: discriminator_block_forward_def and_then_def LeakyReLU_shape)
qed

lemma Discriminator_forward_shape:
  assumes "Discriminator_init img_dim hidden_dim D" and "has_shape b img_dim X"
  shows "\<exists>Y. Discriminator_forward D X = Inr Y \<and> has_shape b 1 Y"
proof -
  note blk = discriminator_block_forward_shape
  from assms obtain h1 where h1:
    "discriminator_block_forward (disc_block1 D) X = Inr h1" "has_shape b (hidden_dim * 4) h1"
    using blk unfolding Discriminator_init_def by blast
  from assms h1 obtain h2 where h2:
    "discriminator_block_forward (disc_block2 D) h1 = Inr h2" "has_shape b (hidden_dim * 2) h2"
    using blk unfolding Discriminator_init_def by blast
  from assms h2 obtain h3 where h3:
    "discriminator_block_forward (disc_block3 D) h2 = Inr h3" "has_shape b hidden_dim h3"
    using blk unfolding Discriminator_init_def by blast
  from assms h3 obtain out where out:
    "Linear_forward (disc_out D) h3 = Inr out" "has_shape b 1 out"
    using Linear_forward_shape unfolding Discriminator_init_def by blast
  have "Discriminator_forward D X = Inr out"
    using h1 h2 h3 out by (simp add: Discriminator_forward_def and_then_def)
  with out show ?thesis by blast
qed

lemma BCEWithLogitsLoss_zeros_like:
  "BCEWithLogitsLoss t (zeros_like t)
     = Inr \<lparr>data = bce_mean (data t) (map (map (\<lambda>_. 0)) (data t)), graph = graph t\<rparr>"
  by (simp add: BCEWithLogitsLoss_def zeros_like_def fresh_def comp_def)

lemma BCEWithLogitsLoss_ones_like:
  "BCEWithLogitsLoss t (ones_like t)
     = Inr \<lparr>data = bce_mean (data t) (map (map (\<lambda>_. 1)) (data t)), graph = graph t\<rparr>"
  by (simp add: BCEWithLogitsLoss_def ones_like_def fresh_def comp_def)

section \<open>The generator's output\<close>

lemma example_linear_shape: "Linear_shape i n (example_linear i n)"
  by (simp add: Linear_shape_def example_linear_def)

lemma example_block_shape: "get_generator_block i n (example_block i n)"
  by (simp add: get_generator_block_def example_block_def example_linear_shape BatchNorm_shape_def)

lemma example_generator_init: "Generator_init z i h (example_generator z i h)"
  by (simp add: Generator_init_def example_generator_def example_block_shape example_linear_shape)

lemma example_discriminator_init: "Discriminator_init i h (example_discriminator i h)"
  by (simp add: Discriminator_init_def example_discriminator_def get_discriminator_block_def
      example_linear_shape)

lemma generator_block_forward_single:
  assumes "get_generator_block i n blk" and "has_shape 1 i X"
  shows "generator_block_forward blk keep X = Inl ValueError"
proof -
  from assms obtain H where H: "Linear_forward (gb_linear blk) X = Inr H" "has_shape 1 n H"
    using Linear_forward_shape unfolding get_generator_block_def by blast
  then have "BatchNorm1d_forward (gb_norm blk) H = Inl ValueError"
    by (simp add: BatchNorm1d_forward_def has_shape_def)
  with H show ?thesis
    by (simp add: generator_block_forward_def and_then_def)
qed

lemma Generator_forward_single:
  assumes "Generator_init Z img_dim hidden_dim G" and "has_shape 1 Z noise"
  shows "Generator_forward G keeps noise = Inl ValueError"
proof -
  have "generator_block_forward (gen_block1 G) (keeps 0) noise = Inl ValueError"
    using assms generator_block_forward_single unfolding Generator_init_def by blast
  then show ?thesis
    by (simp add: Generator_forward_def and_then_def)
qed







section \<open>The two losses\<close>

lemma map2_const_right: "map2 f xs (map (\<lambda>_. c) xs) = map (\<lambda>x. f x c) xs"
  by (induction xs) auto

lemma map2_concat_const:
  "map2 f (concat L) (concat (map (map (\<lambda>_. c)) L)) = map (\<lambda>x. f x c) (concat L)"
  by (induction L) (auto simp: map2_const_right)

lemma bce_mean_const:
  "bce_mean L (map (map (\<lambda>_. c)) L) = mean (map (\<lambda>x. bce x c) (concat L))"
  by (simp add: bce_mean_def map2_concat_const)

lemma criterion_zeros_like:
  "BCEWithLogitsLoss t (zeros_like t)
     = Inr \<lparr>data = mean (map (\<lambda>x. bce x 0) (concat (data t))), graph = graph t\<rparr>"
  by (simp add: BCEWithLogitsLoss_zeros_like bce_mean_const)

lemma criterion_ones_like:
  "BCEWithLogitsLoss t (ones_like t)
     = Inr \<lparr>data = mean (map (\<lambda>x. bce x 1) (concat (data t))), graph = graph t\<rparr>"
  by (simp add: BCEWithLogitsLoss_ones_like bce_mean_const)

lemma get_discriminator_loss_value:
  assumes "Generator_forward gen (dr_keeps dr) (get_generator_noise n Z (dr_randn dr)) = Inr fake"
      and "Discriminator_forward disc fake = Inr logit_fake"
      and "Discriminator_forward disc (data real_batch) = Inr logit_real"
  shows "get_discriminator_loss gen disc BCEWithLogitsLoss real_batch n Z dr =
           Inr \<lparr>data = (mean (map (\<lambda>x. bce x 0) (concat logit_fake)) +
                        mean (map (\<lambda>x. bce x 1) (concat logit_real))) / 2,
                graph = insert Disc (graph real_batch)\<rparr>"
  using assms
  by (simp add: get_discriminator_loss_def gen_call_def disc_call_def detach_def fresh_def
      and_then_def criterion_zeros_like criterion_ones_like tensor_add_def tensor_div_def)

lemma get_generator_loss_value:
  assumes "Generator_forward gen (dr_keeps dr) (get_generator_noise n Z (dr_randn dr)) = Inr fake"
      and "Discriminator_forward disc fake = Inr logits"
  shows "get_generator_loss gen disc BCEWithLogitsLoss n Z dr =
           Inr \<lparr>data = mean (map (\<lambda>x. bce x 1) (concat logits)), graph = {Gen, Disc}\<rparr>"
  using assms
  by (simp add: get_generator_loss_def gen_call_def disc_call_def fresh_def and_then_def
      criterion_ones_like insert_commute)

lemma generator_then_discriminator:
  assumes "Generator_init Z img_dim hgen gen" and "Discriminator_init img_dim hdisc disc"
      and "n \<noteq> 1"
  shows "\<exists>fake logits.
           Generator_forward gen keeps (get_generator_noise n Z randn) = Inr fake \<and>
           has_shape n img_dim fake \<and>
           Discriminator_forward disc fake = Inr logits \<and> has_shape n 1 logits"
proof -
  obtain pre where pre:
    "Generator_forward gen keeps (get_generator_noise n Z randn) = Inr (Sigmoid pre)"
    "has_shape n img_dim pre"
    using Generator_forward_Sigmoid [OF assms(1) get_generator_noise_shape assms(3)]
    by blast
  define fake where "fake = Sigmoid pre"
  have fake:
    "Generator_forward gen keeps (get_generator_noise n Z randn) = Inr fake"
    "has_shape n img_dim fake"
    using pre by (simp_all add: fake_def Sigmoid_shape)
  from assms(2) fake(2) obtain logits where
    "Discriminator_forward disc fake = Inr logits" "has_shape n 1 logits"
    using Discriminator_forward_shape by blast
  with fake show ?thesis by blast
qed

lemma example_real_shape: "has_shape b n (example_real b n)"
  by (simp add: has_shape_def example_real_def)

text \<open>
  C2: with \<^verbatim>\<open>nn.BCEWithLogitsLoss()\<close> as criterion and a batch of data as real
  batch, the discriminator loss is the unweighted average \<open>(a + b) / 2\<close> of two binary
  cross-entropy-with-logits terms: \<open>a\<close> is the mean, over the discriminator's logits on
  the generator's output, of the loss against target 0, and \<open>b\<close> the mean, over its
  logits on the real batch, of the loss against target 1. The generator's output
  enters detached: the graph of the loss reaches the discriminator only, so
  \<^verbatim>\<open>backward()\<close> deposits no gradient in the generator's parameters.
\<close>

theorem get_discriminator_loss_average:
  assumes "Generator_init Z img_dim hgen gen" and "Discriminator_init img_dim hdisc disc"
      and "has_shape m img_dim real_rows" and "0 < m" and "2 \<le> n"
  shows "\<exists>fake logit_fake logit_real.
           Generator_forward gen (dr_keeps dr) (get_generator_noise n Z (dr_randn dr)) = Inr fake \<and>
           Discriminator_forward disc fake = Inr logit_fake \<and> has_shape n 1 logit_fake \<and>
           Discriminator_forward disc real_rows = Inr logit_real \<and> has_shape m 1 logit_real \<and>
           get_discriminator_loss gen disc BCEWithLogitsLoss (fresh real_rows) n Z dr =
             Inr \<lparr>data = (mean (map (\<lambda>x. bce x 0) (concat logit_fake)) +
                          mean (map (\<lambda>x. bce x 1) (concat logit_real))) / 2,
                  graph = {Disc}\<rparr>"
proof -
  have ne: "n \<noteq> 1"
    using assms(5) by simp
  obtain fake logit_fake where fake:
    "Generator_forward gen (dr_keeps dr) (get_generator_noise n Z (dr_randn dr)) = Inr fake"
    "Discriminator_forward disc fake = Inr logit_fake" "has_shape n 1 logit_fake"
    using generator_then_discriminator [OF assms(1,2) ne] by blast
  obtain logit_real where lreal:
    "Discriminator_forward disc (data (fresh real_rows)) = Inr logit_real"
    "has_shape m 1 logit_real"
    using Discriminator_forward_shape [OF assms(2,3)] by (auto simp: fresh_def)
  have "get_discriminator_loss gen disc BCEWithLogitsLoss (fresh real_rows) n Z dr =
             Inr \<lparr>data = (mean (map (\<lambda>x. bce x 0) (concat logit_fake)) +
                          mean (map (\<lambda>x. bce x 1) (concat logit_real))) / 2,
                  graph = {Disc}\<rparr>"
    using get_discriminator_loss_value [OF fake(1,2) lreal(1)] by (simp add: fresh_def)
  moreover have "Discriminator_forward disc real_rows = Inr logit_real"
    using lreal(1) by (simp add: fresh_def)
  ultimately show ?thesis
    using fake lreal(2) by blast
qed

theorem get_discriminator_loss_average_witness:
  "Generator_init 64 784 128 (example_generator 64 784 128) \<and>
   Discriminator_init 784 128 (example_discriminator 784 128) \<and>
   has_shape 2 784 (example_real 2 784) \<and> (0::nat) < 2 \<and> (2::nat) \<le> 2 \<and>
   (\<exists>loss. get_discriminator_loss (example_generator 64 784 128) (example_discriminator 784 128)
             BCEWithLogitsLoss (fresh (example_real 2 784)) 2 64 example_draw = Inr loss \<and>
           graph loss = {Disc})"
proof -
  have pos: "(0::nat) < 2" and two: "(2::nat) \<le> 2"
    by simp_all
  have "\<exists>loss. get_discriminator_loss (example_generator 64 784 128) (example_discriminator 784 128)
             BCEWithLogitsLoss (fresh (example_real 2 784)) 2 64 example_draw = Inr loss \<and>
           graph loss = {Disc}"
    using get_discriminator_loss_average
            [OF example_generator_init example_discriminator_init example_real_shape pos two,
             where dr = example_draw]
    by fastforce
  then show ?thesis
    using example_generator_init [of 64 784 128] example_discriminator_init [of 784 128]
      example_real_shape [of 2 784]
    by simp
qed

lemma get_generator_noise_entry:
  assumes "i < n" and "j < Z"
  shows "get_generator_noise n Z randn ! i ! j = randn i j"
  using assms by (simp add: get_generator_noise_def)

text \<open>
  C3, as the specification states it, fails for a requested batch size of 1: on the
  notebook's networks (latent dimension 64, hidden width 128, 784 pixels) the noise of
  shape \<open>[1, 64]\<close> is refused by the generator's first batch normalisation, and
  \<^verbatim>\<open>get_generator_loss\<close> raises instead of returning a loss.
\<close>

theorem get_generator_loss_batch_of_one:
  "Generator_init 64 784 128 (example_generator 64 784 128) \<and>
   Discriminator_init 784 128 (example_discriminator 784 128) \<and>
   get_generator_loss (example_generator 64 784 128) (example_discriminator 784 128)
     BCEWithLogitsLoss 1 64 example_draw = Inl ValueError"
proof -
  have "Generator_forward (example_generator 64 784 128) (dr_keeps example_draw)
          (get_generator_noise 1 64 (dr_randn example_draw)) = Inl ValueError"
    using example_generator_init get_generator_noise_shape by (rule Generator_forward_single)
  then have "get_generator_loss (example_generator 64 784 128) (example_discriminator 784 128)
     BCEWithLogitsLoss 1 64 example_draw = Inl ValueError"
    by (simp add: get_generator_loss_def gen_call_def fresh_def and_then_def)
  then show ?thesis
    using example_generator_init [of 64 784 128] example_discriminator_init [of 784 128]
    by simp
qed

text \<open>
  C3 (amended): for a requested batch size \<open>n\<close> of at least 2, the generator loss (of a
  generator of the notebook's hidden width 128) samples fresh noise of shape
  \<open>[n, z_dim]\<close>, whose entry \<open>(i, j)\<close> is the value drawn for it, passes that
  noise through the generator, passes the generator's output through the
  discriminator without detaching it, and returns the binary cross-entropy-with-logits
  of those logits against target 1 (their mean over the batch): the graph of the loss
  reaches the generator, through the discriminator.
\<close>

theorem get_generator_loss_target_real:
  assumes "Generator_init Z img_dim 128 gen" and "Discriminator_init img_dim hdisc disc"
      and "2 \<le> n"
  shows "\<exists>fake logits.
           has_shape n Z (get_generator_noise n Z (dr_randn dr)) \<and>
           (\<forall>i<n. \<forall>j<Z. get_generator_noise n Z (dr_randn dr) ! i ! j = dr_randn dr i j) \<and>
           gen_call gen (dr_keeps dr) (fresh (get_generator_noise n Z (dr_randn dr)))
             = Inr \<lparr>data = fake, graph = {Gen}\<rparr> \<and>
           Generator_forward gen (dr_keeps dr) (get_generator_noise n Z (dr_randn dr)) = Inr fake \<and>
           Discriminator_forward disc fake = Inr logits \<and> has_shape n 1 logits \<and>
           get_generator_loss gen disc BCEWithLogitsLoss n Z dr =
             Inr \<lparr>data = mean (map (\<lambda>x. bce x 1) (concat logits)), graph = {Gen, Disc}\<rparr>"
proof -
  have ne: "n \<noteq> 1"
    using assms(3) by simp
  obtain fake logits where fake:
    "Generator_forward gen (dr_keeps dr) (get_generator_noise n Z (dr_randn dr)) = Inr fake"
    "Discriminator_forward disc fake = Inr logits" "has_shape n 1 logits"
    using generator_then_discriminator [OF assms(1,2) ne] by blast
  note loss_eq = get_generator_loss_value [OF fake(1,2)]
  have entries: "\<forall>i<n. \<forall>j<Z. get_generator_noise n Z (dr_randn dr) ! i ! j = dr_randn dr i j"
    by (simp add: get_generator_noise_entry)
  have call: "gen_call gen (dr_keeps dr) (fresh (get_generator_noise n Z (dr_randn dr)))
             = Inr \<lparr>data = fake, graph = {Gen}\<rparr>"
    using fake(1) by (simp add: gen_call_def fresh_def and_then_def)
  from fake loss_eq get_generator_noise_shape entries call show ?thesis by blast
qed

theorem get_generator_loss_target_real_witness:
  "Generator_init 64 784 128 (example_generator 64 784 128) \<and>
   Discriminator_init 784 128 (example_discriminator 784 128) \<and> (2::nat) \<le> 2 \<and>
   get_generator_noise 2 64 (dr_randn example_draw) ! 1 ! 2 = - 1 / 2 \<and>
   (\<exists>loss. get_generator_loss (example_generator 64 784 128) (example_discriminator 784 128)
             BCEWithLogitsLoss 2 64 example_draw = Inr loss \<and>
           graph loss = {Gen, Disc})"
proof -
  have two: "(2::nat) \<le> 2" by simp
  from get_generator_loss_target_real
         [OF example_generator_init example_discriminator_init two, where dr = example_draw]
  obtain logits where
    entries: "\<forall>i<2. \<forall>j<64. get_generator_noise 2 64 (dr_randn example_draw) ! i ! j
                = dr_randn example_draw i j"
    and loss: "get_generator_loss (example_generator 64 784 128) (example_discriminator 784 128)
             BCEWithLogitsLoss 2 64 example_draw =
             Inr \<lparr>data = mean (map (\<lambda>x. bce x 1) (concat logits)), graph = {Gen, Disc}\<rparr>"
    by blast
  have "\<exists>loss. get_generator_loss (example_generator 64 784 128) (example_discriminator 784 128)
             BCEWithLogitsLoss 2 64 example_draw = Inr loss \<and>
           graph loss = {Gen, Disc}"
    unfolding loss by simp
  moreover have "(1::nat) < 2" and "(2::nat) < 64"
    by simp_all
  with entries have "get_generator_noise 2 64 (dr_randn example_draw) ! 1 ! 2 = dr_randn example_draw 1 2"
    by blast
  then have "get_generator_noise 2 64 (dr_randn example_draw) ! 1 ! 2 = - 1 / 2"
    by (simp add: example_draw_def example_randn_def)
  ultimately show ?thesis
    using example_generator_init [of 64 784 128] example_discriminator_init [of 784 128]
    by simp
qed

section \<open>The phases of a training step\<close>

lemma and_then_Inr_iff: "and_then r f = Inr y \<longleftrightarrow> (\<exists>a. r = Inr a \<and> f a = Inr y)"
  by (cases r) (simp_all add: and_then_def)

lemma get_discriminator_loss_graph:
  assumes "get_discriminator_loss gen disc BCEWithLogitsLoss rb n Z dr = Inr loss"
  shows "graph loss = insert Disc (graph rb)"
  using assms
  unfolding get_discriminator_loss_def Let_def
  by (auto simp: and_then_Inr_iff gen_call_def disc_call_def detach_def criterion_zeros_like
      criterion_ones_like tensor_add_def tensor_div_def)

lemma get_generator_loss_graph:
  assumes "get_generator_loss gen disc BCEWithLogitsLoss n Z dr = Inr loss"
  shows "graph loss = {Gen, Disc}"
  using assms
  unfolding get_generator_loss_def Let_def
  by (auto simp: and_then_Inr_iff gen_call_def disc_call_def fresh_def criterion_ones_like)

lemma disc_update_fields:
  assumes "disc_update ds st rb n dr = Inr (st1, dl)"
  shows "\<exists>loss. get_discriminator_loss (generator st) (discriminator st) criterion (fresh rb) n z_dim dr
            = Inr loss \<and> dl = data loss"
    and "generator st1 = generator st"
    and "gen_grad st1 = gen_grad st"
    and "disc_grad st1 = [grad_of_disc_loss (generator st) (discriminator st) rb n dr]"
    and "discriminator st1 = snd (ds (disc_optimizer st) (discriminator st) (disc_grad st1))"
    and "disc_optimizer st1 = fst (ds (disc_optimizer st) (discriminator st) (disc_grad st1))"
    and "events st1 = events st @ [Disc_loss_computed (discriminator st) dl n,
                                   Disc_stepped (discriminator st1)]"
    and "gen_optimizer st1 = gen_optimizer st"
    and "img_list st1 = img_list st \<and> G_losses st1 = G_losses st \<and> D_losses st1 = D_losses st \<and>
         cur_step st1 = cur_step st \<and> mean_generator_loss st1 = mean_generator_loss st \<and>
         mean_discriminator_loss st1 = mean_discriminator_loss st \<and>
         last_real st1 = last_real st \<and> console st1 = console st \<and> shown st1 = shown st"
  using assms get_discriminator_loss_graph
  unfolding disc_update_def Let_def criterion_def
  by (auto simp: and_then_Inr_iff backward_def fresh_def)

lemma gen_update_fields:
  assumes "gen_update gs st n dr = Inr (st2, gl)"
  shows "\<exists>loss. get_generator_loss (generator st) (discriminator st) criterion n z_dim dr
            = Inr loss \<and> gl = data loss"
    and "discriminator st2 = discriminator st"
    and "disc_optimizer st2 = disc_optimizer st"
    and "disc_grad st2 = disc_grad st @ [grad_of_gen_loss (generator st) (discriminator st) n dr]"
    and "gen_grad st2 = [grad_of_gen_loss (generator st) (discriminator st) n dr]"
    and "generator st2 = snd (gs (gen_optimizer st) (generator st) (gen_grad st2))"
    and "gen_optimizer st2 = fst (gs (gen_optimizer st) (generator st) (gen_grad st2))"
    and "events st2 = events st @ [Gen_loss_computed (discriminator st) gl n,
                                   Gen_stepped (generator st2)]"
    and "img_list st2 = img_list st \<and> G_losses st2 = G_losses st \<and> D_losses st2 = D_losses st \<and>
         cur_step st2 = cur_step st \<and> mean_generator_loss st2 = mean_generator_loss st \<and>
         mean_discriminator_loss st2 = mean_discriminator_loss st \<and>
         last_real st2 = last_real st \<and> console st2 = console st \<and> shown st2 = shown st"
  using assms get_generator_loss_graph
  unfolding gen_update_def Let_def criterion_def
  by (auto simp: and_then_Inr_iff backward_def)

lemma record_losses_fields:
  "mean_discriminator_loss (record_losses st dl gl n) = mean_discriminator_loss st + dl / real n"
  "mean_generator_loss (record_losses st dl gl n) = mean_generator_loss st + gl / real n"
  "G_losses (record_losses st dl gl n) = G_losses st @ [mean_discriminator_loss st + dl / real n]"
  "D_losses (record_losses st dl gl n) = D_losses st @ [mean_generator_loss st + gl / real n]"
  "generator (record_losses st dl gl n) = generator st"
  "discriminator (record_losses st dl gl n) = discriminator st"
  "gen_grad (record_losses st dl gl n) = gen_grad st"
  "disc_grad (record_losses st dl gl n) = disc_grad st"
  "gen_optimizer (record_losses st dl gl n) = gen_optimizer st"
  "disc_optimizer (record_losses st dl gl n) = disc_optimizer st"
  "img_list (record_losses st dl gl n) = img_list st"
  "cur_step (record_losses st dl gl n) = cur_step st"
  "last_real (record_losses st dl gl n) = last_real st"
  "console (record_losses st dl gl n) = console st"
  "shown (record_losses st dl gl n) = shown st"
  "events (record_losses st dl gl n) = events st"
  by (simp_all add: record_losses_def Let_def)

lemma display_frame:
  assumes "display ep len st n dr = Inr st'"
  shows "generator st' = generator st \<and> discriminator st' = discriminator st \<and>
         gen_grad st' = gen_grad st \<and> disc_grad st' = disc_grad st \<and>
         gen_optimizer st' = gen_optimizer st \<and> disc_optimizer st' = disc_optimizer st \<and>
         G_losses st' = G_losses st \<and> D_losses st' = D_losses st \<and>
         cur_step st' = cur_step st \<and> last_real st' = last_real st \<and>
         shown st' = shown st \<and> events st' = events st"
  using assms
  unfolding display_def Let_def
  by (auto simp: and_then_Inr_iff split: if_splits)

lemma display_fires:
  assumes "display ep len st n dr = Inr st'" and "cur_step st mod display_step = 0" and "0 \<le> cur_step st"
  shows "console st' = console st @
           [\<lparr>rp_epoch = ep, rp_step = cur_step st, rp_total = num_epochs * len,
             rp_generator_loss = mean_generator_loss st,
             rp_discriminator_loss = mean_discriminator_loss st\<rparr>]"
    and "\<exists>fake. Generator_forward (generator st) (dr_keeps dr)
                  (get_generator_noise n z_dim (dr_randn dr)) = Inr fake \<and>
                img_list st' = img_list st @ [take 36 fake]"
    and "mean_generator_loss st' = 0" and "mean_discriminator_loss st' = 0"
  using assms
  unfolding display_def Let_def
  by (auto simp: and_then_Inr_iff gen_call_def detach_def fresh_def)

lemma display_silent:
  assumes "\<not> (cur_step st mod display_step = 0 \<and> 0 \<le> cur_step st)"
  shows "display ep len st n dr = Inr st"
  using assms unfolding display_def by auto

lemma train_step_phases:
  assumes "train_step gs ds ep len st b = Inr st'"
  shows "\<exists>rb st1 dl st2 gl st3.
           view_flat (real_images b) = Inr rb \<and>
           disc_update ds (st\<lparr>last_real := Some rb\<rparr>) rb (length (real_images b)) (draw_disc b)
             = Inr (st1, dl) \<and>
           gen_update gs st1 (length (real_images b)) (draw_gen b) = Inr (st2, gl) \<and>
           display ep len (record_losses st2 dl gl (length (real_images b)))
             (length (real_images b)) (draw_show b) = Inr st3 \<and>
           st' = st3\<lparr>cur_step := cur_step st3 + 1\<rparr>"
  using assms
  unfolding train_step_def Let_def
  by (auto simp: and_then_Inr_iff)


lemma train_step_effect:
  assumes step: "train_step gs ds ep len st b = Inr st'"
  obtains rb dloss gloss where
    "view_flat (real_images b) = Inr rb"
    "get_discriminator_loss (generator st) (discriminator st) criterion (fresh rb)
       (length (real_images b)) z_dim (draw_disc b) = Inr dloss"
    "discriminator st' = snd (ds (disc_optimizer st) (discriminator st)
       [grad_of_disc_loss (generator st) (discriminator st) rb (length (real_images b)) (draw_disc b)])"
    "get_generator_loss (generator st) (discriminator st') criterion
       (length (real_images b)) z_dim (draw_gen b) = Inr gloss"
    "generator st' = snd (gs (gen_optimizer st) (generator st)
       [grad_of_gen_loss (generator st) (discriminator st') (length (real_images b)) (draw_gen b)])"
    "events st' = events st @
       [Disc_loss_computed (discriminator st) (data dloss) (length (real_images b)),
        Disc_stepped (discriminator st'),
        Gen_loss_computed (discriminator st') (data gloss) (length (real_images b)),
        Gen_stepped (generator st')]"
    "G_losses st' = G_losses st @
       [mean_discriminator_loss st + data dloss / real (length (real_images b))]"
    "D_losses st' = D_losses st @
       [mean_generator_loss st + data gloss / real (length (real_images b))]"
    "cur_step st' = cur_step st + 1"
    "disc_grad st' =
       [grad_of_disc_loss (generator st) (discriminator st) rb (length (real_images b)) (draw_disc b),
        grad_of_gen_loss (generator st) (discriminator st') (length (real_images b)) (draw_gen b)]"
    "gen_grad st' =
       [grad_of_gen_loss (generator st) (discriminator st') (length (real_images b)) (draw_gen b)]"
    "last_real st' = Some rb" "shown st' = shown st"
proof -
  define B where "B = length (real_images b)"
  from train_step_phases [OF step] obtain rb st1 dl st2 gl st3 where
    v: "view_flat (real_images b) = Inr rb" and
    d: "disc_update ds (st\<lparr>last_real := Some rb\<rparr>) rb B (draw_disc b) = Inr (st1, dl)" and
    g: "gen_update gs st1 B (draw_gen b) = Inr (st2, gl)" and
    s: "display ep len (record_losses st2 dl gl B) B (draw_show b) = Inr st3" and
    e: "st' = st3\<lparr>cur_step := cur_step st3 + 1\<rparr>"
    unfolding B_def by blast
  note df = disc_update_fields [OF d]
  note gf = gen_update_fields [OF g]
  note sf = display_frame [OF s]
  from df(1) obtain dloss where dloss:
    "get_discriminator_loss (generator st) (discriminator st) criterion (fresh rb) B z_dim (draw_disc b)
       = Inr dloss" "dl = data dloss"
    by auto
  from gf(1) obtain gloss where gloss:
    "get_generator_loss (generator st1) (discriminator st1) criterion B z_dim (draw_gen b) = Inr gloss"
    "gl = data gloss"
    by auto
  have d1: "discriminator st' = discriminator st1" and g2: "generator st' = generator st2"
    using e sf gf(2) by (simp_all add: record_losses_fields)
  show ?thesis
  proof (rule that [of rb dloss gloss])
    show "view_flat (real_images b) = Inr rb" by (fact v)
    show "get_discriminator_loss (generator st) (discriminator st) criterion (fresh rb)
       (length (real_images b)) z_dim (draw_disc b) = Inr dloss"
      using dloss(1) by (simp add: B_def)
    show "discriminator st' = snd (ds (disc_optimizer st) (discriminator st)
       [grad_of_disc_loss (generator st) (discriminator st) rb (length (real_images b)) (draw_disc b)])"
      using d1 df(4,5) by (simp add: B_def)
    show "get_generator_loss (generator st) (discriminator st') criterion
       (length (real_images b)) z_dim (draw_gen b) = Inr gloss"
      using gloss(1) d1 df(2) by (simp add: B_def)
    show "generator st' = snd (gs (gen_optimizer st) (generator st)
       [grad_of_gen_loss (generator st) (discriminator st') (length (real_images b)) (draw_gen b)])"
      using g2 gf(5,6) d1 df(2,8) by (simp add: B_def)
    show "events st' = events st @
       [Disc_loss_computed (discriminator st) (data dloss) (length (real_images b)),
        Disc_stepped (discriminator st'),
        Gen_loss_computed (discriminator st') (data gloss) (length (real_images b)),
        Gen_stepped (generator st')]"
      using e sf gf(8) df(7) d1 g2 dloss(2) gloss(2) by (simp add: record_losses_fields B_def)
    show "G_losses st' = G_losses st @
       [mean_discriminator_loss st + data dloss / real (length (real_images b))]"
      using e sf gf(9) df(9) dloss(2) by (simp add: record_losses_fields B_def)
    show "D_losses st' = D_losses st @
       [mean_generator_loss st + data gloss / real (length (real_images b))]"
      using e sf gf(9) df(9) gloss(2) by (simp add: record_losses_fields B_def)
    show "cur_step st' = cur_step st + 1"
      using e sf gf(9) df(9) by (simp add: record_losses_fields)
    show "disc_grad st' =
       [grad_of_disc_loss (generator st) (discriminator st) rb (length (real_images b)) (draw_disc b),
        grad_of_gen_loss (generator st) (discriminator st') (length (real_images b)) (draw_gen b)]"
      using e sf gf(4) df(2,4) d1 by (simp add: record_losses_fields B_def)
    show "gen_grad st' =
       [grad_of_gen_loss (generator st) (discriminator st') (length (real_images b)) (draw_gen b)]"
      using e sf gf(5) df(2) d1 by (simp add: record_losses_fields B_def)
    show "last_real st' = Some rb"
      using e sf gf(9) df(9) by (simp add: record_losses_fields)
    show "shown st' = shown st"
      using e sf gf(9) df(9) by (simp add: record_losses_fields)
  qed
qed

lemma train_step_display:
  assumes step: "train_step gs ds ep len st b = Inr st'"
      and dloss: "get_discriminator_loss (generator st) (discriminator st) criterion (fresh rb)
                    (length (real_images b)) z_dim (draw_disc b) = Inr dloss"
      and rb: "view_flat (real_images b) = Inr rb"
      and gloss: "get_generator_loss (generator st) (discriminator st') criterion
                    (length (real_images b)) z_dim (draw_gen b) = Inr gloss"
  shows "cur_step st mod display_step = 0 \<and> 0 \<le> cur_step st \<Longrightarrow>
           console st' = console st @
             [\<lparr>rp_epoch = ep, rp_step = cur_step st, rp_total = num_epochs * len,
               rp_generator_loss =
                 mean_generator_loss st + data gloss / real (length (real_images b)),
               rp_discriminator_loss =
                 mean_discriminator_loss st + data dloss / real (length (real_images b))\<rparr>] \<and>
           (\<exists>fake. Generator_forward (generator st') (dr_keeps (draw_show b))
                     (get_generator_noise (length (real_images b)) z_dim (dr_randn (draw_show b)))
                     = Inr fake \<and>
                   img_list st' = img_list st @ [take 36 fake]) \<and>
           mean_generator_loss st' = 0 \<and> mean_discriminator_loss st' = 0"
    and "\<not> (cur_step st mod display_step = 0 \<and> 0 \<le> cur_step st) \<Longrightarrow>
           console st' = console st \<and> img_list st' = img_list st \<and>
           mean_generator_loss st' =
             mean_generator_loss st + data gloss / real (length (real_images b)) \<and>
           mean_discriminator_loss st' =
             mean_discriminator_loss st + data dloss / real (length (real_images b))"
proof -
  define B where "B = length (real_images b)"
  from train_step_phases [OF step] rb obtain st1 dl st2 gl st3 where
    d: "disc_update ds (st\<lparr>last_real := Some rb\<rparr>) rb B (draw_disc b) = Inr (st1, dl)" and
    g: "gen_update gs st1 B (draw_gen b) = Inr (st2, gl)" and
    s: "display ep len (record_losses st2 dl gl B) B (draw_show b) = Inr st3" and
    e: "st' = st3\<lparr>cur_step := cur_step st3 + 1\<rparr>"
    unfolding B_def by auto
  note df = disc_update_fields [OF d]
  note gf = gen_update_fields [OF g]
  note sf = display_frame [OF s]
  have dl: "dl = data dloss"
    using df(1) dloss by (auto simp: B_def)
  have d1: "discriminator st' = discriminator st1"
    using e sf gf(2) by (simp add: record_losses_fields)
  have gl: "gl = data gloss"
    using gf(1) gloss d1 df(2) by (auto simp: B_def)
  have g2: "generator st' = generator st2"
    using e sf by (simp add: record_losses_fields)
  have cs: "cur_step (record_losses st2 dl gl B) = cur_step st"
    using gf(9) df(9) by (simp add: record_losses_fields)
  have acc:
    "mean_generator_loss (record_losses st2 dl gl B) = mean_generator_loss st + data gloss / real B"
    "mean_discriminator_loss (record_losses st2 dl gl B) = mean_discriminator_loss st + data dloss / real B"
    "console (record_losses st2 dl gl B) = console st"
    "img_list (record_losses st2 dl gl B) = img_list st"
    "generator (record_losses st2 dl gl B) = generator st'"
    using gf(9) df(9) dl gl g2 by (simp_all add: record_losses_fields)
  {
    assume fires: "cur_step st mod display_step = 0 \<and> 0 \<le> cur_step st"
    then have f1: "cur_step (record_losses st2 dl gl B) mod display_step = 0"
      and f2: "0 \<le> cur_step (record_losses st2 dl gl B)"
      using cs by simp_all
    note fs = display_fires [OF s f1 f2]
    show "console st' = console st @
             [\<lparr>rp_epoch = ep, rp_step = cur_step st, rp_total = num_epochs * len,
               rp_generator_loss =
                 mean_generator_loss st + data gloss / real (length (real_images b)),
               rp_discriminator_loss =
                 mean_discriminator_loss st + data dloss / real (length (real_images b))\<rparr>] \<and>
           (\<exists>fake. Generator_forward (generator st') (dr_keeps (draw_show b))
                     (get_generator_noise (length (real_images b)) z_dim (dr_randn (draw_show b)))
                     = Inr fake \<and>
                   img_list st' = img_list st @ [take 36 fake]) \<and>
           mean_generator_loss st' = 0 \<and> mean_discriminator_loss st' = 0"
      using fs e acc cs unfolding B_def [symmetric] by auto
  }
  {
    assume silent: "\<not> (cur_step st mod display_step = 0 \<and> 0 \<le> cur_step st)"
    then have "\<not> (cur_step (record_losses st2 dl gl B) mod display_step = 0 \<and>
                  0 \<le> cur_step (record_losses st2 dl gl B))"
      using cs by simp
    from display_silent [OF this] s have "st3 = record_losses st2 dl gl B"
      by simp
    then show "console st' = console st \<and> img_list st' = img_list st \<and>
           mean_generator_loss st' =
             mean_generator_loss st + data gloss / real (length (real_images b)) \<and>
           mean_discriminator_loss st' =
             mean_discriminator_loss st + data dloss / real (length (real_images b))"
      using e acc unfolding B_def [symmetric] by simp
  }
qed

lemma length_concat_const:
  "(\<forall>x \<in> set xs. length x = n) \<Longrightarrow> length (concat xs) = length xs * n"
  by (induction xs) auto

lemma image_shape_flat:
  assumes "image_shape c h w im"
  shows "length (concat (concat im)) = c * h * w"
proof -
  have "length (concat im) = c * h"
    using assms length_concat_const [of im h] by (simp add: image_shape_def)
  moreover have "\<forall>r \<in> set (concat im). length r = w"
    using assms by (auto simp: image_shape_def)
  ultimately show ?thesis
    using length_concat_const [of "concat im" w] by simp
qed

lemma view_flat_shape:
  assumes "trainable_batch b"
  shows "\<exists>rb. view_flat (real_images b) = Inr rb \<and> has_shape (length (real_images b)) (28 * 28) rb"
proof -
  have "real_images b \<noteq> []"
    using assms by (auto simp: trainable_batch_def)
  moreover have "\<forall>im \<in> set (real_images b). length (concat (concat im)) = 28 * 28"
    using assms image_shape_flat by (fastforce simp: trainable_batch_def fashion_image_def)
  ultimately show ?thesis
    by (simp add: view_flat_def has_shape_def)
qed

lemma disc_update_succeeds:
  assumes "notebook_networks (generator st) (discriminator st)"
      and "has_shape n (28 * 28) rb" and "n \<noteq> 1"
  shows "\<exists>st1 dl. disc_update ds st rb n dr = Inr (st1, dl)"
proof -
  from assms(1) have G: "Generator_init z_dim (28 * 28) 128 (generator st)"
    and D: "Discriminator_init (28 * 28) 128 (discriminator st)"
    by (simp_all add: notebook_networks_def)
  obtain fake logit_fake where fake:
    "Generator_forward (generator st) (dr_keeps dr) (get_generator_noise n z_dim (dr_randn dr)) = Inr fake"
    "Discriminator_forward (discriminator st) fake = Inr logit_fake"
    using generator_then_discriminator [OF G D assms(3)] by blast
  obtain logit_real where lreal:
    "Discriminator_forward (discriminator st) (data (fresh rb)) = Inr logit_real"
    using Discriminator_forward_shape [OF D] assms(2) by (fastforce simp: fresh_def)
  obtain loss where
    "get_discriminator_loss (generator st) (discriminator st) criterion (fresh rb) n z_dim dr = Inr loss"
    using get_discriminator_loss_value [OF fake lreal] unfolding criterion_def by blast
  then show ?thesis
    by (simp add: disc_update_def and_then_def Let_def)
qed

lemma gen_update_succeeds:
  assumes "notebook_networks (generator st) (discriminator st)" and "n \<noteq> 1"
  shows "\<exists>st2 gl. gen_update gs st n dr = Inr (st2, gl)"
proof -
  from assms(1) have G: "Generator_init z_dim (28 * 28) 128 (generator st)"
    and D: "Discriminator_init (28 * 28) 128 (discriminator st)"
    by (simp_all add: notebook_networks_def)
  obtain fake logits where fake:
    "Generator_forward (generator st) (dr_keeps dr) (get_generator_noise n z_dim (dr_randn dr)) = Inr fake"
    "Discriminator_forward (discriminator st) fake = Inr logits"
    using generator_then_discriminator [OF G D assms(2)] by blast
  obtain loss where
    "get_generator_loss (generator st) (discriminator st) criterion n z_dim dr = Inr loss"
    using get_generator_loss_value [OF fake] unfolding criterion_def by blast
  then show ?thesis
    by (simp add: gen_update_def and_then_def Let_def)
qed

lemma gen_call_succeeds:
  assumes "Generator_init z_dim (28 * 28) 128 gen" and "n \<noteq> 1"
  shows "\<exists>fake. gen_call gen keeps (fresh (get_generator_noise n z_dim randn)) = Inr fake"
proof -
  obtain pre where
    "Generator_forward gen keeps (get_generator_noise n z_dim randn) = Inr (Sigmoid pre)"
    using Generator_forward_Sigmoid [OF assms(1) get_generator_noise_shape assms(2)] by blast
  then show ?thesis
    by (simp add: gen_call_def fresh_def and_then_def)
qed

lemma display_succeeds:
  assumes "Generator_init z_dim (28 * 28) 128 (generator st)" and "n \<noteq> 1"
  shows "\<exists>st'. display ep len st n dr = Inr st'"
proof -
  obtain fake where
    "gen_call (generator st) (dr_keeps dr) (fresh (get_generator_noise n z_dim (dr_randn dr))) = Inr fake"
    using gen_call_succeeds [OF assms] by blast
  then show ?thesis
    by (simp add: display_def and_then_def Let_def)
qed

lemma train_step_succeeds:
  assumes nets: "notebook_networks (generator st) (discriminator st)"
      and sp: "shape_preserving gs ds" and tb: "trainable_batch b"
  shows "\<exists>st'. train_step gs ds ep len st b = Inr st'"
proof -
  define B where "B = length (real_images b)"
  have B: "B \<noteq> 1"
    using tb by (simp add: trainable_batch_def B_def)
  obtain rb where rb: "view_flat (real_images b) = Inr rb" "has_shape B (28 * 28) rb"
    using view_flat_shape [OF tb] unfolding B_def by blast
  define st0 where "st0 = st\<lparr>last_real := Some rb\<rparr>"
  have nets0: "notebook_networks (generator st0) (discriminator st0)"
    using nets by (simp add: st0_def)
  obtain st1 dl where d: "disc_update ds st0 rb B (draw_disc b) = Inr (st1, dl)"
    using disc_update_succeeds [OF nets0 rb(2) B] by blast
  note df = disc_update_fields [OF d]
  have nets1: "notebook_networks (generator st1) (discriminator st1)"
    using nets0 sp df(2,5) by (simp add: notebook_networks_def shape_preserving_def preserves_def)
  obtain st2 gl where g: "gen_update gs st1 B (draw_gen b) = Inr (st2, gl)"
    using gen_update_succeeds [OF nets1 B] by blast
  note gf = gen_update_fields [OF g]
  have "Generator_init z_dim (28 * 28) 128 (generator (record_losses st2 dl gl B))"
    using nets1 sp gf(6) by (simp add: notebook_networks_def shape_preserving_def preserves_def
        record_losses_fields)
  then obtain st3 where s: "display ep len (record_losses st2 dl gl B) B (draw_show b) = Inr st3"
    using display_succeeds B by blast
  show ?thesis
    using rb(1) d g s
    by (simp add: train_step_def and_then_def Let_def B_def [symmetric] st0_def)
qed

lemma train_step_networks:
  assumes step: "train_step gs ds ep len st b = Inr st'"
      and nets: "notebook_networks (generator st) (discriminator st)"
      and sp: "shape_preserving gs ds"
  shows "notebook_networks (generator st') (discriminator st')"
proof -
  from step obtain rb dloss gloss where
    "discriminator st' = snd (ds (disc_optimizer st) (discriminator st)
       [grad_of_disc_loss (generator st) (discriminator st) rb (length (real_images b)) (draw_disc b)])"
    "generator st' = snd (gs (gen_optimizer st) (generator st)
       [grad_of_gen_loss (generator st) (discriminator st') (length (real_images b)) (draw_gen b)])"
    by (rule train_step_effect)
  then show ?thesis
    using nets sp by (simp add: notebook_networks_def shape_preserving_def preserves_def)
qed


lemma example_networks: "notebook_networks (example_generator z_dim (28 * 28) 128) (example_discriminator (28 * 28) 128)"
  by (simp add: notebook_networks_def example_generator_init example_discriminator_init)

lemma example_session_networks:
  "notebook_networks (generator example_session) (discriminator example_session)"
  using example_networks by (simp add: example_session_def initial_session_def)

lemma halve_linear_shape: "Linear_shape i n L \<Longrightarrow> Linear_shape i n (halve_linear L)"
  by (auto simp: Linear_shape_def halve_linear_def)

lemma example_steps_shape_preserving: "shape_preserving example_gen_step example_disc_step"
  by (simp add: shape_preserving_def preserves_def example_gen_step_def example_disc_step_def
      Generator_init_def Discriminator_init_def halve_linear_shape)

lemma example_image_shape: "fashion_image example_image"
  by (simp add: fashion_image_def image_shape_def example_image_def)

lemma example_pair_trainable: "trainable_batch example_pair"
  by (simp add: trainable_batch_def example_pair_def example_batch_def example_image_shape)

section \<open>What a training step records\<close>

text \<open>
  C8: a training step appends the running discriminator loss
  (\<^verbatim>\<open>mean_discriminator_loss\<close>, after \<^verbatim>\<open>disc_loss.item() / cur_batch_size\<close> was
  added to it) to the list named \<^verbatim>\<open>G_losses\<close>, and the running generator loss
  (\<^verbatim>\<open>mean_generator_loss\<close>) to the list named \<^verbatim>\<open>D_losses\<close>: each curve carries
  the other network's values. The last two conjuncts say so for the two \<^verbatim>\<open>append\<close>
  statements themselves, in any state.
\<close>

theorem losses_appended_under_swapped_names:
  assumes "notebook_networks (generator st) (discriminator st)"
      and "shape_preserving gs ds" and "trainable_batch b"
  shows "\<exists>st' rb dloss gloss.
           train_step gs ds ep len st b = Inr st' \<and>
           view_flat (real_images b) = Inr rb \<and>
           get_discriminator_loss (generator st) (discriminator st) criterion (fresh rb)
             (length (real_images b)) z_dim (draw_disc b) = Inr dloss \<and>
           get_generator_loss (generator st) (discriminator st') criterion
             (length (real_images b)) z_dim (draw_gen b) = Inr gloss \<and>
           G_losses st' = G_losses st @
             [mean_discriminator_loss st + data dloss / real (length (real_images b))] \<and>
           D_losses st' = D_losses st @
             [mean_generator_loss st + data gloss / real (length (real_images b))] \<and>
           G_losses (record_losses s dl gl n) =
             G_losses s @ [mean_discriminator_loss (record_losses s dl gl n)] \<and>
           D_losses (record_losses s dl gl n) =
             D_losses s @ [mean_generator_loss (record_losses s dl gl n)]"
proof -
  obtain st' where step: "train_step gs ds ep len st b = Inr st'"
    using train_step_succeeds [OF assms] by blast
  from step obtain rb dloss gloss where
    "view_flat (real_images b) = Inr rb"
    "get_discriminator_loss (generator st) (discriminator st) criterion (fresh rb)
       (length (real_images b)) z_dim (draw_disc b) = Inr dloss"
    "get_generator_loss (generator st) (discriminator st') criterion
       (length (real_images b)) z_dim (draw_gen b) = Inr gloss"
    "G_losses st' = G_losses st @
       [mean_discriminator_loss st + data dloss / real (length (real_images b))]"
    "D_losses st' = D_losses st @
       [mean_generator_loss st + data gloss / real (length (real_images b))]"
    by (rule train_step_effect)
  with step show ?thesis
    by (simp add: record_losses_fields)
qed

theorem losses_appended_under_swapped_names_witness:
  "notebook_networks (generator example_session) (discriminator example_session) \<and>
   shape_preserving example_gen_step example_disc_step \<and>
   trainable_batch example_pair \<and>
   (\<exists>st' dloss gloss.
      train_step example_gen_step example_disc_step 0 469 example_session example_pair = Inr st' \<and>
      G_losses st' = [dloss / 2] \<and> D_losses st' = [gloss / 2])"
proof -
  have "length (real_images example_pair) = 2"
    by (simp add: example_pair_def example_batch_def)
  moreover have "G_losses example_session = []" "D_losses example_session = []"
    "mean_discriminator_loss example_session = 0" "mean_generator_loss example_session = 0"
    by (simp_all add: example_session_def initial_session_def)
  ultimately show ?thesis
    using losses_appended_under_swapped_names
            [OF example_session_networks example_steps_shape_preserving example_pair_trainable, of 0 469]
          example_session_networks example_steps_shape_preserving example_pair_trainable
    by fastforce
qed



section \<open>Which parameters and gradients a training step touches\<close>

text \<open>
  C5, as the specification states it, says that gradient flow across the two networks
  is blocked. It is blocked in one direction only. \<^verbatim>\<open>get_generator_loss\<close> passes the
  generator's output to the discriminator without detaching it, so
  \<^verbatim>\<open>gen_loss.backward()\<close> also deposits a gradient in the discriminator: starting
  from the notebook's initial state, where the discriminator's \<^verbatim>\<open>.grad\<close> is empty,
  the generator update leaves the gradient of the generator loss there (and leaves the
  discriminator's parameters alone).
\<close>

theorem generator_loss_reaches_discriminator_grad:
  "(case gen_update example_gen_step example_session 2 example_draw of
      Inl e \<Rightarrow> False
    | Inr (st2, gl) \<Rightarrow>
        disc_grad example_session = [] \<and>
        disc_grad st2 =
          [grad_of_gen_loss (generator example_session) (discriminator example_session)
             2 example_draw] \<and>
        discriminator st2 = discriminator example_session)"
proof -
  have ne: "(2::nat) \<noteq> 1" by simp
  obtain st2 gl where g: "gen_update example_gen_step example_session 2 example_draw = Inr (st2, gl)"
    using gen_update_succeeds [OF example_session_networks ne] by blast
  have "disc_grad example_session = []"
    by (simp add: example_session_def initial_session_def)
  with gen_update_fields(2,4) [OF g] g show ?thesis
    by simp
qed

text \<open>
  C5 (amended): in a training step, the discriminator update (\<open>st\<close> to \<open>st1\<close>) leaves
  the generator's parameters unchanged, and the generator update on the same batch
  (\<open>st1\<close> to \<open>st2\<close>) leaves the discriminator's parameters unchanged: each optimizer
  changes the parameters of its own network only, and the gradient it applies is that
  of its own network's loss alone. The backward pass of the discriminator loss
  deposits nothing in the generator (its output was detached); the backward pass of
  the generator loss does deposit a gradient in the discriminator, next to the one
  already there, which no optimizer step applies: \<^verbatim>\<open>gen_optimizer\<close> holds the
  generator's parameters only, and the next \<^verbatim>\<open>disc_optimizer.zero_grad()\<close> clears
  it.
\<close>

theorem optimizers_update_only_their_own_network:
  assumes "notebook_networks (generator st) (discriminator st)"
      and "shape_preserving gs ds" and "trainable_batch b"
  shows "\<exists>rb st1 dl st2 gl st'.
           view_flat (real_images b) = Inr rb \<and>
           disc_update ds (st\<lparr>last_real := Some rb\<rparr>) rb (length (real_images b)) (draw_disc b)
             = Inr (st1, dl) \<and>
           gen_update gs st1 (length (real_images b)) (draw_gen b) = Inr (st2, gl) \<and>
           train_step gs ds ep len st b = Inr st' \<and>
           generator st1 = generator st \<and> gen_grad st1 = gen_grad st \<and>
           discriminator st1 =
             snd (ds (disc_optimizer st) (discriminator st)
                    [grad_of_disc_loss (generator st) (discriminator st) rb
                       (length (real_images b)) (draw_disc b)]) \<and>
           discriminator st2 = discriminator st1 \<and>
           generator st2 =
             snd (gs (gen_optimizer st) (generator st)
                    [grad_of_gen_loss (generator st) (discriminator st1)
                       (length (real_images b)) (draw_gen b)]) \<and>
           disc_grad st2 = disc_grad st1 @
             [grad_of_gen_loss (generator st) (discriminator st1)
                (length (real_images b)) (draw_gen b)] \<and>
           generator st' = generator st2 \<and> discriminator st' = discriminator st2"
proof -
  obtain st' where step: "train_step gs ds ep len st b = Inr st'"
    using train_step_succeeds [OF assms] by blast
  from train_step_phases [OF step] obtain rb st1 dl st2 gl st3 where
    v: "view_flat (real_images b) = Inr rb" and
    d: "disc_update ds (st\<lparr>last_real := Some rb\<rparr>) rb (length (real_images b)) (draw_disc b)
          = Inr (st1, dl)" and
    g: "gen_update gs st1 (length (real_images b)) (draw_gen b) = Inr (st2, gl)" and
    s: "display ep len (record_losses st2 dl gl (length (real_images b)))
          (length (real_images b)) (draw_show b) = Inr st3" and
    e: "st' = st3\<lparr>cur_step := cur_step st3 + 1\<rparr>"
    by blast
  note df = disc_update_fields [OF d]
  note gf = gen_update_fields [OF g]
  note sf = display_frame [OF s]
  have "generator st1 = generator st" "gen_grad st1 = gen_grad st"
    using df(2,3) by simp_all
  moreover have "discriminator st1 =
             snd (ds (disc_optimizer st) (discriminator st)
                    [grad_of_disc_loss (generator st) (discriminator st) rb
                       (length (real_images b)) (draw_disc b)])"
    using df(4,5) by simp
  moreover have "discriminator st2 = discriminator st1"
    by (fact gf(2))
  moreover have "generator st2 =
             snd (gs (gen_optimizer st) (generator st)
                    [grad_of_gen_loss (generator st) (discriminator st1)
                       (length (real_images b)) (draw_gen b)])"
    using gf(5,6) df(2,8) by simp
  moreover have "disc_grad st2 = disc_grad st1 @
             [grad_of_gen_loss (generator st) (discriminator st1)
                (length (real_images b)) (draw_gen b)]"
    using gf(4) df(2) by simp
  moreover have "generator st' = generator st2" "discriminator st' = discriminator st2"
    using e sf by (simp_all add: record_losses_fields)
  ultimately show ?thesis
    using v d g step by blast
qed

theorem optimizers_update_only_their_own_network_witness:
  "notebook_networks (generator example_session) (discriminator example_session) \<and>
   shape_preserving example_gen_step example_disc_step \<and>
   trainable_batch example_pair \<and>
   (\<exists>st1 dl st2 gl.
      disc_update example_disc_step
        (example_session\<lparr>last_real := Some [concat (concat example_image), concat (concat example_image)]\<rparr>)
        [concat (concat example_image), concat (concat example_image)] 2 example_draw
        = Inr (st1, dl) \<and>
      gen_update example_gen_step st1 2 example_draw = Inr (st2, gl) \<and>
      generator st1 = generator example_session \<and> discriminator st2 = discriminator st1)"
proof -
  have len: "length (real_images example_pair) = 2"
    and dr: "draw_disc example_pair = example_draw" "draw_gen example_pair = example_draw"
    by (simp_all add: example_pair_def example_batch_def)
  have v: "view_flat (real_images example_pair)
             = Inr [concat (concat example_image), concat (concat example_image)]"
    by (simp add: view_flat_def example_pair_def example_batch_def)
  from optimizers_update_only_their_own_network
            [OF example_session_networks example_steps_shape_preserving example_pair_trainable,
             where ep = 0 and len = 469]
  obtain rb st1 dl st2 gl where
    rb: "view_flat (real_images example_pair) = Inr rb" and
    d: "disc_update example_disc_step (example_session\<lparr>last_real := Some rb\<rparr>) rb
          (length (real_images example_pair)) (draw_disc example_pair) = Inr (st1, dl)" and
    g: "gen_update example_gen_step st1 (length (real_images example_pair)) (draw_gen example_pair)
          = Inr (st2, gl)" and
    f: "generator st1 = generator example_session" "discriminator st2 = discriminator st1"
    by blast
  have "rb = [concat (concat example_image), concat (concat example_image)]"
    using rb v by simp
  with d g f have "\<exists>st1 dl st2 gl.
      disc_update example_disc_step
        (example_session\<lparr>last_real := Some [concat (concat example_image), concat (concat example_image)]\<rparr>)
        [concat (concat example_image), concat (concat example_image)] 2 example_draw
        = Inr (st1, dl) \<and>
      gen_update example_gen_step st1 2 example_draw = Inr (st2, gl) \<and>
      generator st1 = generator example_session \<and> discriminator st2 = discriminator st1"
    unfolding len dr by blast
  then show ?thesis
    using example_session_networks example_steps_shape_preserving example_pair_trainable by blast
qed

section \<open>The log and the curves along a run\<close>

lemma alternating_append_block:
  "alternating es \<Longrightarrow>
   alternating (es @ [Disc_loss_computed d0 v n, Disc_stepped d1, Gen_loss_computed d1 w m,
                      Gen_stepped g])"
  by (induction es rule: alternating.induct) simp_all

lemma disc_loss_terms_append:
  "disc_loss_terms (es @ fs) = disc_loss_terms es @ disc_loss_terms fs"
  by (induction es rule: disc_loss_terms.induct) simp_all

lemma gen_loss_terms_append:
  "gen_loss_terms (es @ fs) = gen_loss_terms es @ gen_loss_terms fs"
  by (induction es rule: gen_loss_terms.induct) simp_all

lemma window_start_le: "window_start k \<le> k"
proof (cases k)
  case 0
  then show ?thesis by (simp add: window_start_def)
next
  case (Suc j)
  have "(j div nat display_step) * nat display_step \<le> j"
    by simp
  then show ?thesis
    using Suc by (simp add: window_start_def)
qed

lemma pred_div_100:
  fixes n :: nat
  assumes "n mod 100 \<noteq> 0"
  shows "(n - 1) div 100 = n div 100"
proof -
  define q where "q = n div 100"
  define r where "r = n mod 100"
  have n: "n = 100 * q + r" and r: "r < 100" "r \<noteq> 0"
    using assms by (simp_all add: q_def r_def)
  have "100 * q \<le> n - 1" and "n - 1 < 100 * Suc q"
    using n r by simp_all
  then have "(n - 1) div 100 = q"
    by (rule div_nat_eqI)
  then show ?thesis by (simp add: q_def)
qed

lemma window_start_Suc:
  "window_start (Suc n) = (if n mod nat display_step = 0 then Suc n else window_start n)"
proof (cases "n mod nat display_step = 0")
  case True
  then have "(n div nat display_step) * nat display_step = n"
    by (simp add: mod_eq_0_iff_dvd)
  with True show ?thesis by (simp add: window_start_def)
next
  case False
  then have pos: "0 < n" by (cases n) auto
  have "n mod 100 \<noteq> 0" using False by (simp add: display_step_def)
  then have "(n - 1) div nat display_step = n div nat display_step"
    using pred_div_100 by (simp add: display_step_def)
  with False pos show ?thesis by (simp add: window_start_def)
qed

lemma sum_nth_append_below:
  fixes ts :: "real list"
  assumes "k < length ts"
  shows "(\<Sum>i = w..k. (ts @ [a]) ! i) = (\<Sum>i = w..k. ts ! i)"
proof (rule sum.cong)
  show "{w..k} = {w..k}" by simp
next
  fix x assume "x \<in> {w..k}"
  then have "x < length ts" using assms by simp
  then show "(ts @ [a]) ! x = ts ! x" by (simp add: nth_append)
qed

lemma curve_step:
  fixes ts cs :: "real list"
  assumes "length ts = n" and "length cs = n"
      and "acc = (\<Sum>i = window_start n..<n. ts ! i)"
      and "\<forall>k<n. cs ! k = (\<Sum>i = window_start k..k. ts ! i)"
  shows "\<forall>k<Suc n. (cs @ [acc + a]) ! k = (\<Sum>i = window_start k..k. (ts @ [a]) ! i)"
    and "(if n mod nat display_step = 0 then 0 else acc + a)
           = (\<Sum>i = window_start (Suc n)..<Suc n. (ts @ [a]) ! i)"
proof -
  have old: "(\<Sum>i = window_start n..<n. (ts @ [a]) ! i) = acc"
    using assms(1,3) by (simp add: nth_append)
  have full: "(\<Sum>i = window_start n..<Suc n. (ts @ [a]) ! i) = acc + a"
    using old assms(1) window_start_le [of n] by (simp add: nth_append)
  show "\<forall>k<Suc n. (cs @ [acc + a]) ! k = (\<Sum>i = window_start k..k. (ts @ [a]) ! i)"
  proof (intro allI impI)
    fix k assume "k < Suc n"
    show "(cs @ [acc + a]) ! k = (\<Sum>i = window_start k..k. (ts @ [a]) ! i)"
    proof (cases "k < n")
      case True
      then have "(\<Sum>i = window_start k..k. (ts @ [a]) ! i) = (\<Sum>i = window_start k..k. ts ! i)"
        using assms(1) by (simp add: sum_nth_append_below)
      with True assms(2,4) show ?thesis by (simp add: nth_append)
    next
      case False
      with \<open>k < Suc n\<close> have "k = n" by simp
      then show ?thesis
        using full assms(2) by (simp add: nth_append atLeastLessThanSuc_atLeastAtMost)
    qed
  qed
  show "(if n mod nat display_step = 0 then 0 else acc + a)
           = (\<Sum>i = window_start (Suc n)..<Suc n. (ts @ [a]) ! i)"
  proof (cases "n mod nat display_step = 0")
    case True
    then have "window_start (Suc n) = Suc n" by (simp add: window_start_Suc)
    with True show ?thesis by simp
  next
    case False
    then have "window_start (Suc n) = window_start n" by (simp add: window_start_Suc)
    with False full show ?thesis by simp
  qed
qed

lemma fires_iff:
  "int n mod display_step = 0 \<and> 0 \<le> int n \<longleftrightarrow> n mod nat display_step = 0"
proof -
  have "int n mod 100 = int (n mod 100)" by (simp add: zmod_int)
  then show ?thesis by (simp add: display_step_def)
qed

lemma train_step_consistent:
  assumes step: "train_step gs ds ep len st b = Inr st'"
      and c: "consistent st" and sp: "shape_preserving gs ds"
  shows "consistent st'" and "length (G_losses st') = Suc (length (G_losses st))"
proof -
  define n where "n = length (G_losses st)"
  define B where "B = length (real_images b)"
  from c have nets: "notebook_networks (generator st) (discriminator st)"
    and alt: "alternating (events st)" and cr: "curves_recorded st"
    by (simp_all add: consistent_def)
  from step obtain rb dloss gloss where
    rb: "view_flat (real_images b) = Inr rb" and
    dl: "get_discriminator_loss (generator st) (discriminator st) criterion (fresh rb)
           B z_dim (draw_disc b) = Inr dloss" and
    gl: "get_generator_loss (generator st) (discriminator st') criterion
           B z_dim (draw_gen b) = Inr gloss" and
    ev: "events st' = events st @
           [Disc_loss_computed (discriminator st) (data dloss) B,
            Disc_stepped (discriminator st'),
            Gen_loss_computed (discriminator st') (data gloss) B,
            Gen_stepped (generator st')]" and
    G: "G_losses st' = G_losses st @ [mean_discriminator_loss st + data dloss / real B]" and
    D: "D_losses st' = D_losses st @ [mean_generator_loss st + data gloss / real B]" and
    cs: "cur_step st' = cur_step st + 1"
    unfolding B_def by (rule train_step_effect)
  note disp = train_step_display [OF step dl [unfolded B_def] rb gl [unfolded B_def],
      folded B_def]
  from cr have cur: "cur_step st = int n" and lenD: "length (D_losses st) = n"
    and lend: "length (disc_loss_terms (events st)) = n"
    and leng: "length (gen_loss_terms (events st)) = n"
    and lene: "length (events st) = 4 * n"
    and accd: "mean_discriminator_loss st = (\<Sum>i = window_start n..<n. disc_loss_terms (events st) ! i)"
    and accg: "mean_generator_loss st = (\<Sum>i = window_start n..<n. gen_loss_terms (events st) ! i)"
    and oldG: "\<forall>k<n. G_losses st ! k = (\<Sum>i = window_start k..k. disc_loss_terms (events st) ! i)"
    and oldD: "\<forall>k<n. D_losses st ! k = (\<Sum>i = window_start k..k. gen_loss_terms (events st) ! i)"
    by (simp_all add: curves_recorded_def n_def)
  have lenG: "length (G_losses st) = n" by (simp add: n_def)
  have fires: "cur_step st mod display_step = 0 \<and> 0 \<le> cur_step st \<longleftrightarrow> n mod nat display_step = 0"
    unfolding cur by (rule fires_iff)
  have meand: "mean_discriminator_loss st' =
      (if n mod nat display_step = 0 then 0 else mean_discriminator_loss st + data dloss / real B)"
    and meang: "mean_generator_loss st' =
      (if n mod nat display_step = 0 then 0 else mean_generator_loss st + data gloss / real B)"
    using disp fires by (cases "n mod nat display_step = 0"; simp)+
  have dts: "disc_loss_terms (events st') = disc_loss_terms (events st) @ [data dloss / real B]"
    and gts: "gen_loss_terms (events st') = gen_loss_terms (events st) @ [data gloss / real B]"
    by (simp_all add: ev disc_loss_terms_append gen_loss_terms_append)
  note cd = curve_step [OF lend lenG accd oldG, of "data dloss / real B"]
  note cg = curve_step [OF leng lenD accg oldD, of "data gloss / real B"]
  have len': "length (G_losses st') = Suc n"
    by (simp add: G lenG)
  have "curves_recorded st'"
    unfolding curves_recorded_def len' dts gts
  proof (intro conjI)
    show "cur_step st' = int (Suc n)"
      using cs cur by simp
    show "length (D_losses st') = Suc n"
      using D lenD by simp
    show "length (disc_loss_terms (events st) @ [data dloss / real B]) = Suc n"
      using lend by simp
    show "length (gen_loss_terms (events st) @ [data gloss / real B]) = Suc n"
      using leng by simp
    show "length (events st') = 4 * Suc n"
      using lene by (simp add: ev)
    show "mean_discriminator_loss st' =
            (\<Sum>i = window_start (Suc n)..<Suc n.
               (disc_loss_terms (events st) @ [data dloss / real B]) ! i)"
      using cd(2) by (simp only: meand)
    show "mean_generator_loss st' =
            (\<Sum>i = window_start (Suc n)..<Suc n.
               (gen_loss_terms (events st) @ [data gloss / real B]) ! i)"
      using cg(2) by (simp only: meang)
    show "\<forall>k<Suc n.
            G_losses st' ! k =
              (\<Sum>i = window_start k..k. (disc_loss_terms (events st) @ [data dloss / real B]) ! i) \<and>
            D_losses st' ! k =
              (\<Sum>i = window_start k..k. (gen_loss_terms (events st) @ [data gloss / real B]) ! i)"
      using cd(1) cg(1) unfolding G D by blast
  qed
  moreover have "alternating (events st')"
    unfolding ev using alt by (rule alternating_append_block)
  moreover have "notebook_networks (generator st') (discriminator st')"
    using step nets sp by (rule train_step_networks)
  ultimately show "consistent st'"
    by (simp add: consistent_def)
  show "length (G_losses st') = Suc (length (G_losses st))"
    using len' by (simp add: n_def)
qed

lemma train_step_last_real:
  assumes "train_step gs ds ep len st b = Inr st'" and "trainable_batch b"
  shows "\<exists>rb. last_real st' = Some rb \<and> 2 \<le> length rb"
proof -
  from assms(1) obtain rb where
    "view_flat (real_images b) = Inr rb" "last_real st' = Some rb"
    by (rule train_step_effect)
  moreover from this(1) have "length rb = length (real_images b)"
    by (auto simp: view_flat_def split: if_splits)
  ultimately show ?thesis
    using assms(2) by (simp add: trainable_batch_def)
qed

lemma run_batches_consistent:
  assumes "consistent st" and "shape_preserving gs ds" and "\<forall>b \<in> set bs. trainable_batch b"
  shows "\<exists>st'. run_batches gs ds ep len st bs = Inr st' \<and> consistent st' \<and>
               length (G_losses st') = length (G_losses st) + length bs \<and>
               (bs \<noteq> [] \<longrightarrow> (\<exists>rb. last_real st' = Some rb \<and> 2 \<le> length rb))"
  using assms
proof (induction bs arbitrary: st)
  case Nil
  then show ?case by simp
next
  case (Cons b bs)
  from Cons.prems have nets: "notebook_networks (generator st) (discriminator st)"
    and tb: "trainable_batch b"
    by (simp_all add: consistent_def)
  obtain st1 where step: "train_step gs ds ep len st b = Inr st1"
    using train_step_succeeds [OF nets Cons.prems(2) tb] by blast
  note c1 = train_step_consistent [OF step Cons.prems(1,2)]
  from Cons.prems(3) have rest: "\<forall>b \<in> set bs. trainable_batch b"
    by simp
  from Cons.IH [OF c1(1) Cons.prems(2) rest] obtain st' where run:
    "run_batches gs ds ep len st1 bs = Inr st'" "consistent st'"
    "length (G_losses st') = length (G_losses st1) + length bs"
    "bs \<noteq> [] \<longrightarrow> (\<exists>rb. last_real st' = Some rb \<and> 2 \<le> length rb)"
    by blast
  have last: "\<exists>rb. last_real st' = Some rb \<and> 2 \<le> length rb"
  proof (cases bs)
    case Nil
    with run(1) have "st' = st1" by simp
    with train_step_last_real [OF step tb] show ?thesis by simp
  next
    case (Cons c cs)
    with run(4) show ?thesis by simp
  qed
  have "run_batches gs ds ep len st (b # bs) = Inr st'"
    using step run(1) by (simp add: and_then_def)
  with run(2,3) c1(2) last show ?case
    by simp
qed

lemma consistent_shown: "consistent (st\<lparr>shown := x\<rparr>) = consistent st"
  by (simp add: consistent_def curves_recorded_def)

lemma end_of_epoch_consistent:
  assumes "consistent st" and "last_real st = Some rb" and "2 \<le> length rb"
  shows "\<exists>st'. end_of_epoch ep st dr = Inr st' \<and> consistent st' \<and>
               G_losses st' = G_losses st \<and> last_real st' = last_real st"
proof (cases "ep mod img_show = 0")
  case True
  from assms(1) have G: "Generator_init z_dim (28 * 28) 128 (generator st)"
    by (simp add: consistent_def notebook_networks_def)
  from assms(3) have "length rb \<noteq> 1" by simp
  from gen_call_succeeds [OF G this] obtain fake where
    "gen_call (generator st) (dr_keeps dr)
       (fresh (get_generator_noise (length rb) z_dim (dr_randn dr))) = Inr fake"
    by blast
  then have "end_of_epoch ep st dr = Inr (st\<lparr>shown := shown st @ [(rb, data fake)]\<rparr>)"
    using True assms(2) by (simp add: end_of_epoch_def)
  then show ?thesis
    using assms(1) by (simp add: consistent_shown)
next
  case False
  then have "end_of_epoch ep st dr = Inr st"
    by (simp add: end_of_epoch_def)
  then show ?thesis
    using assms(1) by simp
qed

lemma train_epoch_consistent:
  assumes "consistent st" and "shape_preserving gs ds" and "trainable_epoch e"
  shows "\<exists>st'. train_epoch gs ds ep len st e = Inr st' \<and> consistent st' \<and>
               length (G_losses st') = length (G_losses st) + length (fst e)"
proof -
  from assms(3) have ne: "fst e \<noteq> []" and tb: "\<forall>b \<in> set (fst e). trainable_batch b"
    by (simp_all add: trainable_epoch_def)
  from run_batches_consistent [OF assms(1,2) tb] ne obtain st1 rb where run:
    "run_batches gs ds ep len st (fst e) = Inr st1" "consistent st1"
    "length (G_losses st1) = length (G_losses st) + length (fst e)"
    "last_real st1 = Some rb" "2 \<le> length rb"
    by blast
  from end_of_epoch_consistent [OF run(2,4,5)] obtain st' where
    "end_of_epoch ep st1 (snd e) = Inr st'" "consistent st'" "G_losses st' = G_losses st1"
    by blast
  with run(1,3) show ?thesis
    by (simp add: train_epoch_def)
qed

lemma training_loop_consistent:
  assumes "consistent st" and "shape_preserving gs ds" and "\<forall>e \<in> set eps. trainable_epoch e"
  shows "\<exists>st'. training_loop gs ds ep len st eps = Inr st' \<and> consistent st' \<and>
               length (G_losses st') = length (G_losses st) + total_batches eps"
  using assms
proof (induction eps arbitrary: st ep)
  case Nil
  then show ?case by (simp add: total_batches_def)
next
  case (Cons e eps)
  from Cons.prems(3) have te: "trainable_epoch e" and rest: "\<forall>e \<in> set eps. trainable_epoch e"
    by simp_all
  from train_epoch_consistent [OF Cons.prems(1,2) te] obtain st1 where ep1:
    "train_epoch gs ds ep len st e = Inr st1" "consistent st1"
    "length (G_losses st1) = length (G_losses st) + length (fst e)"
    by blast
  from Cons.IH [OF ep1(2) Cons.prems(2) rest] obtain st' where
    "training_loop gs ds (ep + 1) len st1 eps = Inr st'" "consistent st'"
    "length (G_losses st') = length (G_losses st1) + total_batches eps"
    by blast
  with ep1 show ?case
    by (simp add: total_batches_def)
qed

lemma initial_session_consistent:
  "notebook_networks gen disc \<Longrightarrow> consistent (initial_session gen og disc od)"
  by (simp add: consistent_def curves_recorded_def initial_session_def window_start_def)

lemma example_epochs_trainable: "\<forall>e \<in> set example_epochs. trainable_epoch e"
  by (simp add: example_epochs_def trainable_epoch_def example_pair_trainable)

lemma example_epochs_total: "total_batches example_epochs = 3"
  by (simp add: example_epochs_def total_batches_def)

text \<open>
  C4: within every training step, \<^verbatim>\<open>disc_optimizer.step()\<close> is complete before the
  generator loss is computed, and the generator loss is evaluated against the
  discriminator that this step returned. The second conjunct says so for one step from
  any state; the first says that the log of a whole run, over every batch of every
  epoch, is made of such blocks.
\<close>

theorem discriminator_steps_before_generator_loss:
  assumes "notebook_networks gen disc" and "shape_preserving gs ds"
      and "\<forall>e \<in> set eps. trainable_epoch e"
      and "notebook_networks (generator st) (discriminator st)" and "trainable_batch b"
  shows "(\<exists>st'. training_loop gs ds 0 len (initial_session gen og disc od) eps = Inr st' \<and>
               alternating (events st') \<and> length (events st') = 4 * total_batches eps) \<and>
         (\<exists>st' rb dloss gloss.
            train_step gs ds ep len st b = Inr st' \<and>
            view_flat (real_images b) = Inr rb \<and>
            get_discriminator_loss (generator st) (discriminator st) criterion (fresh rb)
              (length (real_images b)) z_dim (draw_disc b) = Inr dloss \<and>
            discriminator st' =
              snd (ds (disc_optimizer st) (discriminator st)
                     [grad_of_disc_loss (generator st) (discriminator st) rb
                        (length (real_images b)) (draw_disc b)]) \<and>
            get_generator_loss (generator st) (discriminator st') criterion
              (length (real_images b)) z_dim (draw_gen b) = Inr gloss \<and>
            events st' = events st @
              [Disc_loss_computed (discriminator st) (data dloss) (length (real_images b)),
               Disc_stepped (discriminator st'),
               Gen_loss_computed (discriminator st') (data gloss) (length (real_images b)),
               Gen_stepped (generator st')])"
proof -
  have "consistent (initial_session gen og disc od)"
    using assms(1) by (rule initial_session_consistent)
  from training_loop_consistent [OF this assms(2,3)] obtain final where final:
    "training_loop gs ds 0 len (initial_session gen og disc od) eps = Inr final"
    "consistent final"
    "length (G_losses final) = length (G_losses (initial_session gen og disc od)) + total_batches eps"
    by blast
  have "length (G_losses final) = total_batches eps"
    using final(3) by (simp add: initial_session_def)
  with final(2) have "alternating (events final)" "length (events final) = 4 * total_batches eps"
    by (simp_all add: consistent_def curves_recorded_def)
  with final(1) have run:
    "\<exists>st'. training_loop gs ds 0 len (initial_session gen og disc od) eps = Inr st' \<and>
           alternating (events st') \<and> length (events st') = 4 * total_batches eps"
    by blast
  obtain st' where step: "train_step gs ds ep len st b = Inr st'"
    using train_step_succeeds [OF assms(4,2,5)] by blast
  from step have
    "\<exists>rb dloss gloss.
       view_flat (real_images b) = Inr rb \<and>
       get_discriminator_loss (generator st) (discriminator st) criterion (fresh rb)
         (length (real_images b)) z_dim (draw_disc b) = Inr dloss \<and>
       discriminator st' =
         snd (ds (disc_optimizer st) (discriminator st)
                [grad_of_disc_loss (generator st) (discriminator st) rb
                   (length (real_images b)) (draw_disc b)]) \<and>
       get_generator_loss (generator st) (discriminator st') criterion
         (length (real_images b)) z_dim (draw_gen b) = Inr gloss \<and>
       events st' = events st @
         [Disc_loss_computed (discriminator st) (data dloss) (length (real_images b)),
          Disc_stepped (discriminator st'),
          Gen_loss_computed (discriminator st') (data gloss) (length (real_images b)),
          Gen_stepped (generator st')]"
  proof (rule train_step_effect)
    fix rb dloss gloss
    assume "view_flat (real_images b) = Inr rb"
      and "get_discriminator_loss (generator st) (discriminator st) criterion (fresh rb)
         (length (real_images b)) z_dim (draw_disc b) = Inr dloss"
      and "discriminator st' =
         snd (ds (disc_optimizer st) (discriminator st)
                [grad_of_disc_loss (generator st) (discriminator st) rb
                   (length (real_images b)) (draw_disc b)])"
      and "get_generator_loss (generator st) (discriminator st') criterion
         (length (real_images b)) z_dim (draw_gen b) = Inr gloss"
      and "events st' = events st @
         [Disc_loss_computed (discriminator st) (data dloss) (length (real_images b)),
          Disc_stepped (discriminator st'),
          Gen_loss_computed (discriminator st') (data gloss) (length (real_images b)),
          Gen_stepped (generator st')]"
    then show ?thesis by blast
  qed
  with step run show ?thesis
    by blast
qed

theorem discriminator_steps_before_generator_loss_witness:
  "notebook_networks (example_generator z_dim (28 * 28) 128) (example_discriminator (28 * 28) 128) \<and>
   shape_preserving example_gen_step example_disc_step \<and>
   list_all trainable_epoch example_epochs \<and>
   notebook_networks (generator example_session) (discriminator example_session) \<and>
   trainable_batch example_pair \<and>
   (\<exists>st'. training_loop example_gen_step example_disc_step 0 469 example_session example_epochs = Inr st' \<and>
          alternating (events st') \<and> length (events st') = 12)"
proof -
  have "\<exists>st'. training_loop example_gen_step example_disc_step 0 469 example_session example_epochs = Inr st' \<and>
          alternating (events st') \<and> length (events st') = 12"
    using discriminator_steps_before_generator_loss
            [OF example_networks example_steps_shape_preserving example_epochs_trainable
                example_session_networks example_pair_trainable,
             where len = 469 and og = 0 and od = 0, THEN conjunct1]
    by (simp add: example_epochs_total example_session_def)
  then show ?thesis
    using example_networks example_steps_shape_preserving example_epochs_trainable
      example_session_networks example_pair_trainable
    by (simp add: list_all_iff)
qed

text \<open>
  C10: over a whole run, \<^verbatim>\<open>G_losses\<close> and \<^verbatim>\<open>D_losses\<close> receive one entry per
  training step, so their length is the number of steps executed (which is also
  \<^verbatim>\<open>cur_step\<close>). The entry of step \<open>k\<close> is not the loss of step \<open>k\<close> but the running
  loss at that moment: the sum of the per-batch terms (loss divided by batch size) of
  the steps \<open>window_start k, \<dots>, k\<close>, where the window starts again after every step whose
  number is a multiple of \<^verbatim>\<open>display_step\<close>, that is, after every reset. (\<^verbatim>\<open>G_losses\<close>
  holds the sums of the discriminator's terms and \<^verbatim>\<open>D_losses\<close> those of the
  generator's.)
\<close>

theorem loss_curves_hold_running_sums:
  assumes "notebook_networks gen disc" and "shape_preserving gs ds"
      and "\<forall>e \<in> set eps. trainable_epoch e"
  shows "(\<exists>st'. training_loop gs ds 0 len (initial_session gen og disc od) eps = Inr st' \<and>
               cur_step st' = int (total_batches eps) \<and>
               length (G_losses st') = total_batches eps \<and>
               length (D_losses st') = total_batches eps \<and>
               length (disc_loss_terms (events st')) = total_batches eps \<and>
               length (gen_loss_terms (events st')) = total_batches eps \<and>
               (\<forall>k < total_batches eps.
                  G_losses st' ! k = (\<Sum>i = window_start k..k. disc_loss_terms (events st') ! i) \<and>
                  D_losses st' ! k = (\<Sum>i = window_start k..k. gen_loss_terms (events st') ! i))) \<and>
         window_start 0 = 0 \<and>
         window_start (Suc n) = (if n mod 100 = 0 then Suc n else window_start n)"
proof -
  have "consistent (initial_session gen og disc od)"
    using assms(1) by (rule initial_session_consistent)
  from training_loop_consistent [OF this assms(2,3)] obtain final where final:
    "training_loop gs ds 0 len (initial_session gen og disc od) eps = Inr final"
    "consistent final"
    "length (G_losses final) = length (G_losses (initial_session gen og disc od)) + total_batches eps"
    by blast
  have len: "length (G_losses final) = total_batches eps"
    using final(3) by (simp add: initial_session_def)
  from final(2) have "curves_recorded final"
    by (simp add: consistent_def)
  then have
    "cur_step final = int (total_batches eps)"
    "length (D_losses final) = total_batches eps"
    "length (disc_loss_terms (events final)) = total_batches eps"
    "length (gen_loss_terms (events final)) = total_batches eps"
    "\<forall>k < total_batches eps.
       G_losses final ! k = (\<Sum>i = window_start k..k. disc_loss_terms (events final) ! i) \<and>
       D_losses final ! k = (\<Sum>i = window_start k..k. gen_loss_terms (events final) ! i)"
    unfolding curves_recorded_def len by simp_all
  with final(1) len have
    "\<exists>st'. training_loop gs ds 0 len (initial_session gen og disc od) eps = Inr st' \<and>
               cur_step st' = int (total_batches eps) \<and>
               length (G_losses st') = total_batches eps \<and>
               length (D_losses st') = total_batches eps \<and>
               length (disc_loss_terms (events st')) = total_batches eps \<and>
               length (gen_loss_terms (events st')) = total_batches eps \<and>
               (\<forall>k < total_batches eps.
                  G_losses st' ! k = (\<Sum>i = window_start k..k. disc_loss_terms (events st') ! i) \<and>
                  D_losses st' ! k = (\<Sum>i = window_start k..k. gen_loss_terms (events st') ! i))"
    by blast
  moreover have "window_start 0 = 0"
    by (simp add: window_start_def)
  moreover have "window_start (Suc n) = (if n mod 100 = 0 then Suc n else window_start n)"
    using window_start_Suc [of n] by (simp add: display_step_def)
  ultimately show ?thesis
    by blast
qed

theorem loss_curves_hold_running_sums_witness:
  "notebook_networks (example_generator z_dim (28 * 28) 128) (example_discriminator (28 * 28) 128) \<and>
   shape_preserving example_gen_step example_disc_step \<and>
   list_all trainable_epoch example_epochs \<and>
   (\<exists>st'. training_loop example_gen_step example_disc_step 0 469 example_session example_epochs = Inr st' \<and>
          length (G_losses st') = 3 \<and> length (D_losses st') = 3 \<and>
          G_losses st' ! 0 = disc_loss_terms (events st') ! 0 \<and>
          G_losses st' ! 1 = disc_loss_terms (events st') ! 1 \<and>
          G_losses st' ! 2 = disc_loss_terms (events st') ! 1 + disc_loss_terms (events st') ! 2 \<and>
          D_losses st' ! 2 = gen_loss_terms (events st') ! 1 + gen_loss_terms (events st') ! 2)"
proof -
  have w: "window_start 0 = 0" "window_start 1 = 1" "window_start 2 = 1"
    by (simp_all add: window_start_def display_step_def)
  have s: "(\<Sum>i = 1..2. f i) = f 1 + f (2::nat)" for f :: "nat \<Rightarrow> real"
  proof -
    have "{1..2::nat} = {1, 2}" by auto
    then show ?thesis by simp
  qed
  from loss_curves_hold_running_sums
            [OF example_networks example_steps_shape_preserving example_epochs_trainable,
             where len = 469 and og = 0 and od = 0, THEN conjunct1]
  obtain st' where run:
    "training_loop example_gen_step example_disc_step 0 469 example_session example_epochs = Inr st'"
    "length (G_losses st') = 3" "length (D_losses st') = 3"
    "\<forall>k < 3. G_losses st' ! k = (\<Sum>i = window_start k..k. disc_loss_terms (events st') ! i) \<and>
             D_losses st' ! k = (\<Sum>i = window_start k..k. gen_loss_terms (events st') ! i)"
    unfolding example_epochs_total example_session_def [symmetric] by blast
  have k0: "G_losses st' ! 0 = disc_loss_terms (events st') ! 0"
    using run(4) [rule_format, of 0] w by simp
  have k1: "G_losses st' ! 1 = disc_loss_terms (events st') ! 1"
    using run(4) [rule_format, of 1] w by simp
  have k2: "G_losses st' ! 2 = disc_loss_terms (events st') ! 1 + disc_loss_terms (events st') ! 2"
    "D_losses st' ! 2 = gen_loss_terms (events st') ! 1 + gen_loss_terms (events st') ! 2"
    using run(4) [rule_format, of 2] w s by simp_all
  from run(1,2,3) k0 k1 k2 have
    "\<exists>st'. training_loop example_gen_step example_disc_step 0 469 example_session example_epochs = Inr st' \<and>
          length (G_losses st') = 3 \<and> length (D_losses st') = 3 \<and>
          G_losses st' ! 0 = disc_loss_terms (events st') ! 0 \<and>
          G_losses st' ! 1 = disc_loss_terms (events st') ! 1 \<and>
          G_losses st' ! 2 = disc_loss_terms (events st') ! 1 + disc_loss_terms (events st') ! 2 \<and>
          D_losses st' ! 2 = gen_loss_terms (events st') ! 1 + gen_loss_terms (events st') ! 2"
    by blast
  then show ?thesis
    using example_networks example_steps_shape_preserving example_epochs_trainable
    by (simp add: list_all_iff)
qed

section \<open>The batches of the loader\<close>

lemma batch_sampler_lengths:
  assumes "0 < n"
  shows "map length (batch_sampler n False xs) =
           replicate (length xs div n) n @ (if length xs mod n = 0 then [] else [length xs mod n])"
proof (induction "length xs" arbitrary: xs rule: less_induct)
  case less
  show ?case
  proof (cases "n \<le> length xs")
    case True
    have unfold: "batch_sampler n False xs = take n xs # batch_sampler n False (drop n xs)"
      using assms True by (subst batch_sampler.simps) simp
    have smaller: "length (drop n xs) < length xs"
      using assms True by simp
    have d: "length xs div n = Suc ((length xs - n) div n)"
      using assms True by (simp add: le_div_geq)
    have m: "length xs mod n = (length xs - n) mod n"
      using True by (simp add: le_mod_geq)
    show ?thesis
      unfolding unfold using less [OF smaller] True by (simp add: d m)
  next
    case False
    then have small: "length xs div n = 0" "length xs mod n = length xs"
      by simp_all
    have "batch_sampler n False xs = (if xs = [] then [] else [xs])"
      using assms False by (subst batch_sampler.simps) simp
    then show ?thesis
      by (simp add: small)
  qed
qed

lemma batch_sampler_concat:
  assumes "0 < n"
  shows "concat (batch_sampler n False xs) = xs"
proof (induction "length xs" arbitrary: xs rule: less_induct)
  case less
  show ?case
  proof (cases "n \<le> length xs")
    case True
    have unfold: "batch_sampler n False xs = take n xs # batch_sampler n False (drop n xs)"
      using assms True by (subst batch_sampler.simps) simp
    have smaller: "length (drop n xs) < length xs"
      using assms True by simp
    show ?thesis
      unfolding unfold using less [OF smaller] by simp
  next
    case False
    have "batch_sampler n False xs = (if xs = [] then [] else [xs])"
      using assms False by (subst batch_sampler.simps) simp
    then show ?thesis by simp
  qed
qed

lemma batch_sampler_elements:
  assumes "0 < n" and "b \<in> set (batch_sampler n False xs)"
  shows "set b \<subseteq> set xs"
proof -
  have "set b \<subseteq> set (concat (batch_sampler n False xs))"
    using assms(2) by auto
  also have "concat (batch_sampler n False xs) = xs"
    using assms(1) by (rule batch_sampler_concat)
  finally show ?thesis .
qed

lemma train_loader_60000:
  assumes "length shuffled = 60000"
  shows "map length (train_loader shuffled) = replicate 468 128 @ [96]"
proof -
  have "(60000::nat) div 128 = 468" "(60000::nat) mod 128 = 96"
    by simp_all
  then show ?thesis
    using batch_sampler_lengths [of 128 shuffled] assms
    by (simp add: train_loader_def batch_size_def)
qed

text \<open>
  C7, as the specification states it, counts 469 full batches and takes that number for
  \<open>60000 // 128\<close>. The loader cuts 60000 examples into 468 batches of 128 and one
  batch of 96, and \<open>60000 // 128\<close> is 468.
\<close>

theorem full_batches_60000:
  "map length (train_loader (replicate 60000 example_image)) = replicate 468 batch_size @ [96] \<and>
   (60000::nat) div 128 = 468 \<and>
   length (filter (\<lambda>b. length b = batch_size) (train_loader (replicate 60000 example_image)))
     \<noteq> 469"
proof -
  have lens: "map length (train_loader (replicate 60000 example_image)) = replicate 468 128 @ [96]"
    by (rule train_loader_60000) simp
  have "length (filter (\<lambda>b. length b = batch_size) (train_loader (replicate 60000 example_image)))
          = length (filter (\<lambda>n. n = batch_size) (map length (train_loader (replicate 60000 example_image))))"
    by (simp add: filter_map comp_def)
  also have "\<dots> = 468"
    unfolding lens by (simp add: batch_size_def)
  finally show ?thesis
    using lens by (simp add: batch_size_def)
qed

text \<open>
  C7 (amended): one epoch over 60000 examples with batch size 128 yields exactly 468
  full batches and one partial batch of 96 examples (\<^verbatim>\<open>drop_last\<close> is
  \<^verbatim>\<open>False\<close>), 469 batches in all, which is \<^verbatim>\<open>len(train_loader)\<close>; on the
  notebook's networks the epoch runs to its end without an error and executes one
  discriminator-then-generator update pair per batch, 469 pairs.
\<close>

theorem one_epoch_of_fashion_mnist:
  assumes "notebook_networks gen disc" and "shape_preserving gs ds"
      and "length shuffled = 60000" and "\<forall>im \<in> set shuffled. fashion_image im"
      and "map real_images bs = train_loader shuffled"
  shows "map length (train_loader shuffled) = replicate 468 batch_size @ [96] \<and>
         len_loader batch_size False (length shuffled) = 469 \<and>
         length bs = 469 \<and>
         (\<exists>st'. train_epoch gs ds 0 469 (initial_session gen og disc od) (bs, dr) = Inr st' \<and>
                cur_step st' = 469 \<and> alternating (events st') \<and>
                length (events st') = 4 * 469)"
proof -
  have lens: "map length (train_loader shuffled) = replicate 468 128 @ [96]"
    using assms(3) by (rule train_loader_60000)
  have "length (map real_images bs) = length (map length (train_loader shuffled))"
    using assms(5) by simp
  then have n: "length bs = 469"
    unfolding lens by simp
  have tb: "trainable_batch b" if "b \<in> set bs" for b
  proof -
    from that have mem: "real_images b \<in> set (train_loader shuffled)"
      using assms(5) by (metis image_eqI set_map)
    then have "length (real_images b) \<in> set (map length (train_loader shuffled))"
      by simp
    then have "length (real_images b) \<in> {128, 96}"
      unfolding lens by auto
    then have "2 \<le> length (real_images b)"
      by auto
    moreover have "set (real_images b) \<subseteq> set shuffled"
      using mem batch_sampler_elements [of batch_size "real_images b" shuffled]
      by (simp add: train_loader_def batch_size_def)
    ultimately show ?thesis
      using assms(4) by (auto simp: trainable_batch_def)
  qed
  have "bs \<noteq> []"
    using n by auto
  with tb have te: "trainable_epoch (bs, dr)"
    by (simp add: trainable_epoch_def)
  have "consistent (initial_session gen og disc od)"
    using assms(1) by (rule initial_session_consistent)
  from train_epoch_consistent [OF this assms(2) te] obtain st' where ep:
    "train_epoch gs ds 0 469 (initial_session gen og disc od) (bs, dr) = Inr st'"
    "consistent st'"
    "length (G_losses st') = length (G_losses (initial_session gen og disc od)) + length (fst (bs, dr))"
    by blast
  have len: "length (G_losses st') = 469"
    using ep(3) n by (simp add: initial_session_def)
  from ep(2) have "cur_step st' = 469" "alternating (events st')" "length (events st') = 4 * 469"
    unfolding consistent_def curves_recorded_def len by simp_all
  with ep(1) have
    "\<exists>st'. train_epoch gs ds 0 469 (initial_session gen og disc od) (bs, dr) = Inr st' \<and>
           cur_step st' = 469 \<and> alternating (events st') \<and> length (events st') = 4 * 469"
    by blast
  moreover have "len_loader batch_size False (length shuffled) = 469"
    using assms(3) by (simp add: len_loader_def batch_size_def)
  ultimately show ?thesis
    using lens n by (simp add: batch_size_def)
qed

theorem one_epoch_of_fashion_mnist_witness:
  "notebook_networks (example_generator z_dim (28 * 28) 128) (example_discriminator (28 * 28) 128) \<and>
   shape_preserving example_gen_step example_disc_step \<and>
   length (replicate 60000 example_image) = 60000 \<and>
   list_all fashion_image (replicate 60000 example_image) \<and>
   map real_images (map example_batch (train_loader (replicate 60000 example_image)))
     = train_loader (replicate 60000 example_image) \<and>
   (\<exists>st'. train_epoch example_gen_step example_disc_step 0 469 example_session
            (map example_batch (train_loader (replicate 60000 example_image)), example_draw) = Inr st' \<and>
          cur_step st' = 469)"
proof -
  have len: "length (replicate 60000 example_image) = 60000"
    by simp
  have imgs: "\<forall>im \<in> set (replicate 60000 example_image). fashion_image im"
    by (simp add: example_image_shape)
  have bs: "map real_images (map example_batch (train_loader (replicate 60000 example_image)))
              = train_loader (replicate 60000 example_image)"
    by (simp add: comp_def example_batch_def)
  have "\<exists>st'. train_epoch example_gen_step example_disc_step 0 469 example_session
            (map example_batch (train_loader (replicate 60000 example_image)), example_draw) = Inr st' \<and>
          cur_step st' = 469"
    using one_epoch_of_fashion_mnist
            [OF example_networks example_steps_shape_preserving len imgs bs,
             where og = 0 and od = 0 and dr = example_draw]
    unfolding example_session_def [symmetric]
    by blast
  then show ?thesis
    using example_networks example_steps_shape_preserving len imgs bs
    by (simp add: list_all_iff)
qed

section \<open>Permuting the real batch, in exact arithmetic\<close>

lemma Linear_forward_perm:
  assumes "mset X' = mset X"
  shows "map_sum id mset (Linear_forward L X') = map_sum id mset (Linear_forward L X)"
proof -
  have "set X' = set X"
    using assms by (rule mset_eq_setD)
  moreover have "mset (map (Linear_row L) X') = mset (map (Linear_row L) X)"
    using assms by simp
  ultimately show ?thesis
    by (simp add: Linear_forward_def)
qed

lemma and_then_perm:
  assumes "map_sum id mset r' = map_sum id mset r"
      and "\<And>Y Y'. mset Y' = mset Y \<Longrightarrow> map_sum id mset (f Y') = map_sum id mset (f Y)"
  shows "map_sum id mset (and_then r' f) = map_sum id mset (and_then r f)"
proof (cases r)
  case (Inl e)
  with assms(1) have "r' = Inl e" by (cases r') simp_all
  with Inl show ?thesis by (simp add: and_then_def)
next
  case (Inr Y)
  with assms(1) obtain Y' where Y': "r' = Inr Y'" "mset Y' = mset Y"
    by (cases r') simp_all
  from assms(2) [OF Y'(2)] Inr Y'(1) show ?thesis by (simp add: and_then_def)
qed

lemma discriminator_block_forward_perm:
  assumes "mset X' = mset X"
  shows "map_sum id mset (discriminator_block_forward L X')
           = map_sum id mset (discriminator_block_forward L X)"
  unfolding discriminator_block_forward_def
proof (rule and_then_perm)
  show "map_sum id mset (Linear_forward L X') = map_sum id mset (Linear_forward L X)"
    using assms by (rule Linear_forward_perm)
next
  fix Y Y' :: mat
  assume "mset Y' = mset Y"
  then have "mset (LeakyReLU (2 / 10) Y') = mset (LeakyReLU (2 / 10) Y)"
    by (simp add: LeakyReLU_def)
  then show "map_sum id mset (Inr (LeakyReLU (2 / 10) Y') :: error + mat)
               = map_sum id mset (Inr (LeakyReLU (2 / 10) Y))"
    by simp
qed

lemma Discriminator_forward_perm:
  assumes "mset X' = mset X"
  shows "map_sum id mset (Discriminator_forward D X') = map_sum id mset (Discriminator_forward D X)"
  unfolding Discriminator_forward_def
proof (rule and_then_perm)
  show "map_sum id mset (discriminator_block_forward (disc_block1 D) X')
          = map_sum id mset (discriminator_block_forward (disc_block1 D) X)"
    using assms by (rule discriminator_block_forward_perm)
next
  fix H1 H1' :: mat
  assume h1: "mset H1' = mset H1"
  show "map_sum id mset
          (and_then (discriminator_block_forward (disc_block2 D) H1') (\<lambda>h2.
           and_then (discriminator_block_forward (disc_block3 D) h2) (\<lambda>h3.
           Linear_forward (disc_out D) h3)))
        = map_sum id mset
          (and_then (discriminator_block_forward (disc_block2 D) H1) (\<lambda>h2.
           and_then (discriminator_block_forward (disc_block3 D) h2) (\<lambda>h3.
           Linear_forward (disc_out D) h3)))"
  proof (rule and_then_perm)
    show "map_sum id mset (discriminator_block_forward (disc_block2 D) H1')
            = map_sum id mset (discriminator_block_forward (disc_block2 D) H1)"
      using h1 by (rule discriminator_block_forward_perm)
  next
    fix H2 H2' :: mat
    assume h2: "mset H2' = mset H2"
    show "map_sum id mset
            (and_then (discriminator_block_forward (disc_block3 D) H2') (\<lambda>h3.
             Linear_forward (disc_out D) h3))
          = map_sum id mset
            (and_then (discriminator_block_forward (disc_block3 D) H2) (\<lambda>h3.
             Linear_forward (disc_out D) h3))"
    proof (rule and_then_perm)
      show "map_sum id mset (discriminator_block_forward (disc_block3 D) H2')
              = map_sum id mset (discriminator_block_forward (disc_block3 D) H2)"
        using h2 by (rule discriminator_block_forward_perm)
    next
      fix H3 H3' :: mat
      assume "mset H3' = mset H3"
      then show "map_sum id mset (Linear_forward (disc_out D) H3')
                   = map_sum id mset (Linear_forward (disc_out D) H3)"
        by (rule Linear_forward_perm)
    qed
  qed
qed

lemma sum_list_mset_cong:
  fixes xs ys :: "'a::comm_monoid_add list"
  assumes "mset ys = mset xs"
  shows "sum_list ys = sum_list xs"
proof -
  have "sum_list ys = sum_mset (mset ys)"
    by (rule sum_mset_sum_list [symmetric])
  also have "\<dots> = sum_mset (mset xs)"
    by (simp only: assms)
  also have "\<dots> = sum_list xs"
    by (rule sum_mset_sum_list)
  finally show ?thesis .
qed

lemma mean_mset:
  assumes "mset ys = mset xs"
  shows "mean (map g ys) = mean (map g xs)"
proof -
  have "mset (map g ys) = mset (map g xs)"
    using assms by simp
  then have "sum_list (map g ys) = sum_list (map g xs)"
    by (rule sum_list_mset_cong)
  moreover have "length ys = length xs"
    using assms by (rule mset_eq_length)
  ultimately show ?thesis
    by (simp add: mean_def)
qed

lemma mset_concat_perm:
  assumes "mset Y' = mset Y"
  shows "mset (concat Y') = mset (concat Y)"
proof -
  have "mset (map mset Y') = mset (map mset Y)"
    using assms by simp
  then have "sum_list (map mset Y') = sum_list (map mset Y)"
    by (rule sum_list_mset_cong)
  then show ?thesis
    by (simp only: mset_concat)
qed

lemma real_term_perm:
  assumes "mset (data r') = mset (data r)" and "graph r' = graph r"
  shows "and_then (disc_call disc r') (\<lambda>t. and_then (BCEWithLogitsLoss t (ones_like t)) K)
           = and_then (disc_call disc r) (\<lambda>t. and_then (BCEWithLogitsLoss t (ones_like t)) K)"
proof -
  note perm = Discriminator_forward_perm [OF assms(1), of disc]
  show ?thesis
  proof (cases "Discriminator_forward disc (data r)")
    case (Inl e)
    with perm have "Discriminator_forward disc (data r') = Inl e"
      by (cases "Discriminator_forward disc (data r')") simp_all
    with Inl show ?thesis
      by (simp add: disc_call_def and_then_def)
  next
    case (Inr Y)
    with perm obtain Y' where Y': "Discriminator_forward disc (data r') = Inr Y'" "mset Y' = mset Y"
      by (cases "Discriminator_forward disc (data r')") simp_all
    have "mean (map (\<lambda>x. bce x 1) (concat Y')) = mean (map (\<lambda>x. bce x 1) (concat Y))"
      using mset_concat_perm [OF Y'(2)] by (rule mean_mset)
    with Inr Y'(1) assms(2) show ?thesis
      by (simp add: disc_call_def and_then_def criterion_ones_like)
  qed
qed

text \<open>
  With the exact mean of this development, permuting the examples of the real batch
  (noise, dropout masks and parameters held fixed) does not change the discriminator
  loss, nor whether it is computed at all: the discriminator maps every example on
  its own, and addition of real numbers is commutative and associative. The equality
  rests on those two laws. Addition of 32-bit floats is not associative, and the
  library's reduction adds the elements in an order that depends on their positions,
  so this lemma says nothing about the bits that the program returns for the two
  orders.
\<close>

lemma get_discriminator_loss_perm_exact:
  assumes "mset (data real_perm) = mset (data real_batch)"
      and "graph real_perm = graph real_batch"
  shows "get_discriminator_loss gen disc BCEWithLogitsLoss real_perm n Z dr
           = get_discriminator_loss gen disc BCEWithLogitsLoss real_batch n Z dr"
  unfolding get_discriminator_loss_def Let_def
  by (simp only: real_term_perm [OF assms])

lemma get_discriminator_loss_perm_exact_example:
  "mset (data (fresh example_rows_swapped)) = mset (data (fresh example_rows)) \<and>
   graph (fresh example_rows_swapped) = graph (fresh example_rows) \<and>
   example_rows_swapped \<noteq> example_rows \<and>
   get_discriminator_loss (example_generator 64 784 128) (example_discriminator 784 128)
     BCEWithLogitsLoss (fresh example_rows_swapped) 2 64 example_draw
   = get_discriminator_loss (example_generator 64 784 128) (example_discriminator 784 128)
     BCEWithLogitsLoss (fresh example_rows) 2 64 example_draw \<and>
   (\<exists>loss. get_discriminator_loss (example_generator 64 784 128) (example_discriminator 784 128)
             BCEWithLogitsLoss (fresh example_rows) 2 64 example_draw = Inr loss)"
proof -
  have perm: "mset (data (fresh example_rows_swapped)) = mset (data (fresh example_rows))"
    by (simp add: fresh_def example_rows_def example_rows_swapped_def add_mset_commute)
  have gr: "graph (fresh example_rows_swapped) = graph (fresh example_rows)"
    by (simp add: fresh_def)
  have differ: "example_rows_swapped \<noteq> example_rows"
  proof
    assume "example_rows_swapped = example_rows"
    then have "replicate 784 (1::real) = replicate 784 0"
      by (simp add: example_rows_def example_rows_swapped_def)
    then have "replicate 784 (1::real) ! 0 = replicate 784 (0::real) ! 0"
      by simp
    then show False
      by simp
  qed
  have ne: "(2::nat) \<noteq> 1" by simp
  obtain fake logit_fake where fake:
    "Generator_forward (example_generator 64 784 128) (dr_keeps example_draw)
       (get_generator_noise 2 64 (dr_randn example_draw)) = Inr fake"
    "Discriminator_forward (example_discriminator 784 128) fake = Inr logit_fake"
    using generator_then_discriminator [OF example_generator_init example_discriminator_init ne]
    by blast
  have "has_shape 2 784 (data (fresh example_rows))"
    by (simp add: has_shape_def fresh_def example_rows_def)
  then obtain logit_real where lreal:
    "Discriminator_forward (example_discriminator 784 128) (data (fresh example_rows)) = Inr logit_real"
    using Discriminator_forward_shape [OF example_discriminator_init] by blast
  have "\<exists>loss. get_discriminator_loss (example_generator 64 784 128) (example_discriminator 784 128)
             BCEWithLogitsLoss (fresh example_rows) 2 64 example_draw = Inr loss"
    using get_discriminator_loss_value [OF fake lreal] by blast
  then show ?thesis
    using get_discriminator_loss_perm_exact [OF perm gr] perm gr differ
    by blast
qed

end
